theory Spec2Isabelle
  imports Main "HOL-Library.Word" "HOL-Library.Sublist"
begin

section \<open>Strings\<close>

text \<open>
  \<^verbatim>\<open>std::string\<close> is a \<open>string\<close> (a list of bytes). \<^verbatim>\<open>candidate.find(base)\<close> returns the
  lowest position at which \<open>base\<close> starts inside \<open>candidate\<close>, and \<^verbatim>\<open>std::string::npos\<close>
  when there is none; \<open>None\<close> stands for \<^verbatim>\<open>npos\<close>. An empty needle is found at position 0
  of every string, the empty one included.
\<close>

fun string_find :: "string \<Rightarrow> string \<Rightarrow> nat option" where
  "string_find [] needle = (if needle = [] then Some 0 else None)"
| "string_find (c # cs) needle =
     (if take (length needle) (c # cs) = needle then Some 0
      else map_option Suc (string_find cs needle))"

text \<open>
  The acceptance test of \<^verbatim>\<open>getfqdn\<close> (line 165):
  \<^verbatim>\<open>(candidate.find(base)!=std::string::npos) && baseSize<candidate.size()\<close>.
\<close>

definition accepted :: "string \<Rightarrow> string \<Rightarrow> bool" where
  "accepted base candidate =
     (string_find candidate base \<noteq> None \<and> length base < length candidate)"

section \<open>The deadline timer\<close>

text \<open>
  \<^verbatim>\<open>int\<close> is a 32-bit two's complement integer; \<^verbatim>\<open>1000000*(*(int*)msec)\<close> is computed in
  \<^verbatim>\<open>int\<close> before it is stored in \<^verbatim>\<open>tv_nsec\<close>. Signed overflow is undefined in C++; the
  model takes the wrap-around that the usual compilers produce. The fields of a
  \<^verbatim>\<open>timespec\<close> are 64 bits wide and hold every value a 32-bit \<^verbatim>\<open>int\<close> can take, so
  they are plain integers here.
\<close>

type_synonym c_int = "32 word"

record timespec =
  tv_sec :: int
  tv_nsec :: int

definition timer_request :: "c_int \<Rightarrow> timespec" where
  "timer_request msec = \<lparr>tv_sec = 0, tv_nsec = sint (1000000 * msec)\<rparr>"

text \<open>
  \<^verbatim>\<open>nanosleep\<close> is the operating system's. POSIX: it fails with \<^verbatim>\<open>EINVAL\<close>, without
  waiting, when \<^verbatim>\<open>tv_nsec\<close> is not in the range 0 to 999999999 or \<^verbatim>\<open>tv_sec\<close> is
  negative; it fails with \<^verbatim>\<open>EINTR\<close> when a signal handler interrupts the wait, and then
  stores the time that was left in its second argument; otherwise it returns 0 once the
  requested time has passed. The second argument of the model says whether a signal
  arrives during this call, and how many nanoseconds after the call began. The result
  is what the call returns, and the nanoseconds the caller was blocked in it.
\<close>

definition timespec_valid :: "timespec \<Rightarrow> bool" where
  "timespec_valid ts = (0 \<le> tv_sec ts \<and> 0 \<le> tv_nsec ts \<and> tv_nsec ts \<le> 999999999)"

definition nanoseconds :: "timespec \<Rightarrow> int" where
  "nanoseconds ts = 1000000000 * tv_sec ts + tv_nsec ts"

definition timespec_of :: "int \<Rightarrow> timespec" where
  "timespec_of n = \<lparr>tv_sec = n div 1000000000, tv_nsec = n mod 1000000000\<rparr>"

datatype nanosleep_return = Slept | EINTR timespec | EINVAL

definition nanosleep :: "timespec \<Rightarrow> nat option \<Rightarrow> nanosleep_return \<times> int" where
  "nanosleep req signal =
     (if \<not> timespec_valid req then (EINVAL, 0)
      else case signal of
        None \<Rightarrow> (Slept, nanoseconds req)
      | Some d \<Rightarrow>
          if int d < nanoseconds req
          then (EINTR (timespec_of (nanoseconds req - int d)), int d)
          else (Slept, nanoseconds req))"

text \<open>
  The loop of \<^verbatim>\<open>timer\<close> (line 29):
  \<^verbatim>\<open>while ((nanosleep(&rem, &rem)==-1) && (errno==EINTR)) {}\<close>.
  The list holds the signals that arrive while the timer runs, one for each call of
  \<^verbatim>\<open>nanosleep\<close> in turn; when the list is used up no further signal arrives. The source
  returns \<^verbatim>\<open>NULL\<close>; the model returns the observable effect, the nanoseconds for which
  the thread was blocked in total.
\<close>

fun timer_loop :: "timespec \<Rightarrow> nat list \<Rightarrow> int" where
  "timer_loop rem [] = snd (nanosleep rem None)"
| "timer_loop rem (d # ds) =
     (case fst (nanosleep rem (Some d)) of
        EINTR rem' \<Rightarrow> snd (nanosleep rem (Some d)) + timer_loop rem' ds
      | Slept \<Rightarrow> snd (nanosleep rem (Some d))
      | EINVAL \<Rightarrow> snd (nanosleep rem (Some d)))"

definition timer :: "c_int \<Rightarrow> nat list \<Rightarrow> int" where
  "timer msec signals = timer_loop (timer_request msec) signals"

section \<open>The result record\<close>

type_synonym pthread_t = nat

record HostInfo =
  Hostname :: string
  Fqdn :: string
  Error :: int
  TimerTid :: pthread_t

text \<open>
  The constructor (lines 74 to 87). Its argument is what \<^verbatim>\<open>gethostname\<close> did: the code
  it returned and the string the buffer \<^verbatim>\<open>base\<close> holds afterwards.
\<close>

definition HostInfo_ctor :: "int \<times> string \<Rightarrow> HostInfo" where
  "HostInfo_ctor r =
     (let ierr = fst r; base = snd r in
      \<lparr>Hostname = base, Fqdn = base, Error = (if ierr \<noteq> 0 then -1 else 0), TimerTid = 0\<rparr>)"

definition SetTimerThreadId :: "pthread_t \<Rightarrow> HostInfo \<Rightarrow> HostInfo" where
  "SetTimerThreadId tid h = h\<lparr>TimerTid := tid\<rparr>"

definition GetHostname :: "HostInfo \<Rightarrow> string" where
  "GetHostname h = Hostname h"

definition GetError :: "HostInfo \<Rightarrow> int" where
  "GetError h = Error h"

definition GetFqdn :: "HostInfo \<Rightarrow> string" where
  "GetFqdn h = (if Error h \<noteq> 0 then Hostname h else Fqdn h)"

section \<open>The resolver thread\<close>

text \<open>
  A \<^verbatim>\<open>struct sockaddr\<close> is its family and its address bytes (a number stands for the
  bytes). An entry of the list that \<^verbatim>\<open>getifaddrs\<close> returns has a name and an address
  pointer that may be \<^verbatim>\<open>NULL\<close>; the linked list is a HOL list, in the order of the
  \<^verbatim>\<open>ifa_next\<close> pointers. \<open>AF_INET\<close> and \<open>AF_INET6\<close> have the values of Linux's
  \<^verbatim>\<open><sys/socket.h>\<close>.
\<close>

record sockaddr =
  sa_family :: int
  sa_data :: nat

record ifaddrs =
  ifa_name :: string
  ifa_addr :: "sockaddr option"

definition AF_INET :: int where
  "AF_INET = 2"

definition AF_INET6 :: int where
  "AF_INET6 = 10"

text \<open>
  What the thread does that can be seen from outside it: its calls of the operating
  system and its stores to the field \<^verbatim>\<open>Fqdn\<close>, in program order.
\<close>

datatype action =
    Call_getifaddrs
  | Call_getnameinfo sockaddr
  | Call_freeifaddrs
  | Call_pthread_cancel pthread_t
  | Store_Fqdn string

record thread =
  info :: HostInfo
  trace :: "action list"
  cancelled :: bool

definition SetError :: "int \<Rightarrow> thread \<Rightarrow> thread" where
  "SetError err s = s\<lparr>info := (info s)\<lparr>Error := err\<rparr>\<rparr>"

definition SetFqdn :: "string \<Rightarrow> thread \<Rightarrow> thread" where
  "SetFqdn fqdn s =
     s\<lparr>info := (info s)\<lparr>Fqdn := fqdn, Error := 0\<rparr>,
       trace := trace s @ [Store_Fqdn fqdn, Call_pthread_cancel (TimerTid (info s))]\<rparr>"

text \<open>
  The loop of \<^verbatim>\<open>getfqdn\<close> (lines 138 to 172). \<open>gni\<close> is the reverse-name service: for an
  address, the code \<^verbatim>\<open>getnameinfo\<close> returns and the name it leaves in \<^verbatim>\<open>host\<close>.

  \<^verbatim>\<open>main\<close> cancels this thread with \<^verbatim>\<open>pthread_cancel\<close> when the timer has ended. The
  thread has the default deferred cancelability and installs no cleanup handler, so a
  pending request ends it inside the next call that is a cancellation point, which in
  this loop is \<^verbatim>\<open>getnameinfo\<close>. \<open>k = Some n\<close> says that the request takes effect inside
  the lookup that follows \<open>n\<close> completed ones; \<open>k = None\<close> says that the thread is never
  cancelled and runs to its \<^verbatim>\<open>return\<close>.

  \<open>fam\<close> is -1 for a \<^verbatim>\<open>NULL\<close> address, which is neither family, so the branch for
  \<open>None\<close> under the test of the family is never taken; it is there because the model
  reads the address through its option.
\<close>

fun scan ::
  "(sockaddr \<Rightarrow> int \<times> string) \<Rightarrow> string \<Rightarrow> nat option \<Rightarrow> ifaddrs list \<Rightarrow> thread \<Rightarrow> thread"
where
  "scan gni base k [] s = s"
| "scan gni base k (ifa # ifas) s =
     (let fam = (case ifa_addr ifa of Some sa \<Rightarrow> sa_family sa | None \<Rightarrow> -1) in
      if fam = AF_INET \<or> fam = AF_INET6 then
        (case ifa_addr ifa of
           None \<Rightarrow> scan gni base k ifas s
         | Some sa \<Rightarrow>
            (let s1 = s\<lparr>trace := trace s @ [Call_getnameinfo sa]\<rparr> in
             if k = Some 0 then s1\<lparr>cancelled := True\<rparr>
             else
               let ierr = fst (gni sa); host = snd (gni sa);
                   k' = map_option (\<lambda>n. n - 1) k
               in
               if ierr \<noteq> 0 then scan gni base k' ifas (SetError (-3) s1)
               else if accepted base host then SetFqdn host s1
               else scan gni base k' ifas s1))
      else scan gni base k ifas s)"

text \<open>
  The operating system as the program meets it in one run: what each call returns.
\<close>

record os =
  os_gethostname :: "int \<times> string"
  os_getifaddrs :: "int \<times> ifaddrs list"
  os_getnameinfo :: "sockaddr \<Rightarrow> int \<times> string"
  os_create_timer :: "int \<times> pthread_t"
  os_create_rdns :: "int \<times> pthread_t"
  os_join_timer :: int
  os_cancel_rdns :: int
  os_join_rdns :: int
  os_rdns_cancelled_at :: "nat option"

text \<open>
  \<^verbatim>\<open>getfqdn\<close> (lines 108 to 175). A cancelled thread does not reach
  \<^verbatim>\<open>freeifaddrs\<close>.
\<close>

definition getfqdn :: "os \<Rightarrow> nat option \<Rightarrow> thread \<Rightarrow> thread" where
  "getfqdn sys k s =
     (let base = GetHostname (info s);
          ierr = fst (os_getifaddrs sys); ifas = snd (os_getifaddrs sys);
          s0 = s\<lparr>trace := trace s @ [Call_getifaddrs]\<rparr>
      in
      if ierr \<noteq> 0 then SetError (-2) s0
      else
        let s1 = scan (os_getnameinfo sys) base k ifas s0 in
        if cancelled s1 then s1
        else s1\<lparr>trace := trace s1 @ [Call_freeifaddrs]\<rparr>)"

text \<open>The thread as \<^verbatim>\<open>main\<close> starts it: nothing done yet.\<close>

definition fresh :: "HostInfo \<Rightarrow> thread" where
  "fresh h = \<lparr>info = h, trace = [], cancelled = False\<rparr>"

section \<open>The coordinator\<close>

text \<open>
  \<^verbatim>\<open>atoi\<close> is the C library's, and in glibc it is \<^verbatim>\<open>(int) strtol(nptr, NULL, 10)\<close>.
  \<^verbatim>\<open>strtol\<close> skips white space, reads an optional sign and then decimal digits up to the
  first character that is not one, and returns 0 when there is no digit. A value outside
  the range of \<^verbatim>\<open>long\<close> (64 bits) is replaced by \<^verbatim>\<open>LONG_MAX\<close> or \<^verbatim>\<open>LONG_MIN\<close>;
  \<open>digits\<close> computes the value without a bound and \<open>strtol\<close> saturates it, which gives
  what the library's bounded accumulation gives. The cast to \<^verbatim>\<open>int\<close> keeps the low 32 bits.
\<close>

definition isspace :: "char \<Rightarrow> bool" where
  "isspace c = (of_char c \<in> {32, 9, 10, 11, 12, 13 :: nat})"

definition isdigit :: "char \<Rightarrow> bool" where
  "isdigit c = (48 \<le> (of_char c :: nat) \<and> (of_char c :: nat) \<le> 57)"

fun digits :: "int \<Rightarrow> string \<Rightarrow> int" where
  "digits acc [] = acc"
| "digits acc (c # cs) =
     (if isdigit c then digits (10 * acc + (int (of_char c) - 48)) cs else acc)"

definition LONG_MAX :: int where
  "LONG_MAX = 9223372036854775807"

definition LONG_MIN :: int where
  "LONG_MIN = - 9223372036854775808"

definition strtol :: "string \<Rightarrow> int" where
  "strtol nptr =
     (case dropWhile isspace nptr of
        [] \<Rightarrow> 0
      | c # cs \<Rightarrow>
          if c = CHR ''-'' then max LONG_MIN (- digits 0 cs)
          else if c = CHR ''+'' then min LONG_MAX (digits 0 cs)
          else min LONG_MAX (digits 0 (c # cs)))"

definition atoi :: "string \<Rightarrow> c_int" where
  "atoi nptr = word_of_int (strtol nptr)"

definition ESRCH :: int where
  "ESRCH = 3"

text \<open>The calls of the thread library that \<^verbatim>\<open>main\<close> makes, in program order.\<close>

datatype pthread_call =
    Create_timer c_int
  | Create_getfqdn
  | Join_timer
  | Cancel_rdns
  | Join_rdns

text \<open>
  What a run of \<^verbatim>\<open>main\<close> leaves: the value it returns (the exit code as the program
  states it, before the operating system truncates it), the lines it wrote to
  \<^verbatim>\<open>cerr\<close>, its thread calls, and the resolver thread as it ended, when it was started.
\<close>

record run =
  ret :: int
  cerr :: "string list"
  calls :: "pthread_call list"
  rdns :: "thread option"

text \<open>
  \<^verbatim>\<open>main\<close> (lines 178 to 250); \<^verbatim>\<open>argc\<close> is the length of \<^verbatim>\<open>argv\<close>. The two threads
  run beside \<^verbatim>\<open>main\<close>; what the model keeps of that is that the resolver thread has
  ended, by its return or by cancellation, when \<^verbatim>\<open>pthread_join\<close> has returned 0 for
  it, which is before \<^verbatim>\<open>main\<close> reads the record.
\<close>

definition main :: "string list \<Rightarrow> os \<Rightarrow> run" where
  "main argv sys =
     (if length argv \<noteq> 2 then
        \<lparr>ret = -1, cerr = [''error: a.out [timeout msec]''], calls = [], rdns = None\<rparr>
      else
        let timeout = atoi (argv ! 1) in
        if fst (os_create_timer sys) \<noteq> 0 then
          \<lparr>ret = -2, cerr = [''error creating timer thread''],
           calls = [Create_timer timeout], rdns = None\<rparr>
        else
          let timerTid = snd (os_create_timer sys);
              info0 = SetTimerThreadId timerTid (HostInfo_ctor (os_gethostname sys))
          in
          if fst (os_create_rdns sys) \<noteq> 0 then
            \<lparr>ret = -1, cerr = [''error creating rdns thread''],
             calls = [Create_timer timeout, Create_getfqdn], rdns = None\<rparr>
          else
            let th = getfqdn sys (os_rdns_cancelled_at sys) (fresh info0) in
            if os_join_timer sys \<noteq> 0 then
              \<lparr>ret = -3, cerr = [''error waiting for timer''],
               calls = [Create_timer timeout, Create_getfqdn, Join_timer], rdns = Some th\<rparr>
            else
              let rdnsSuccess = (os_cancel_rdns sys = ESRCH) in
              if os_join_rdns sys \<noteq> 0 then
                \<lparr>ret = -5, cerr = [''error waiting for rdns thread''],
                 calls = [Create_timer timeout, Create_getfqdn, Join_timer, Cancel_rdns,
                          Join_rdns],
                 rdns = Some th\<rparr>
              else
                \<lparr>ret = 0,
                 cerr =
                   (if rdnsSuccess then
                      (if GetError (info th) \<noteq> 0
                       then [''failed to find a match falling back to gethostname'']
                       else [])
                    else [''rdns took too long, falling back to gethostname''])
                   @ [''fqdn='' @ GetFqdn (info th)],
                 calls = [Create_timer timeout, Create_getfqdn, Join_timer, Cancel_rdns,
                          Join_rdns],
                 rdns = Some th\<rparr>)"

section \<open>Notions for stating the properties\<close>

text \<open>
  An entry is eligible when the loop looks its address up: the address pointer is not
  \<^verbatim>\<open>NULL\<close> and the family is IPv4 or IPv6 (lines 140 and 141).
\<close>

definition eligible :: "ifaddrs \<Rightarrow> bool" where
  "eligible ifa =
     (case ifa_addr ifa of
        None \<Rightarrow> False
      | Some sa \<Rightarrow> sa_family sa = AF_INET \<or> sa_family sa = AF_INET6)"

text \<open>
  An entry yields an accepted candidate when it is eligible, its lookup succeeds and
  the name found passes the acceptance test.
\<close>

definition yields :: "(sockaddr \<Rightarrow> int \<times> string) \<Rightarrow> string \<Rightarrow> ifaddrs \<Rightarrow> bool" where
  "yields gni base ifa =
     (case ifa_addr ifa of
        None \<Rightarrow> False
      | Some sa \<Rightarrow>
          (sa_family sa = AF_INET \<or> sa_family sa = AF_INET6)
          \<and> fst (gni sa) = 0 \<and> accepted base (snd (gni sa)))"

text \<open>The addresses of the eligible entries of an enumeration, in its order.\<close>

fun addresses :: "ifaddrs list \<Rightarrow> sockaddr list" where
  "addresses [] = []"
| "addresses (ifa # ifas) =
     (case ifa_addr ifa of
        None \<Rightarrow> addresses ifas
      | Some sa \<Rightarrow>
          if sa_family sa = AF_INET \<or> sa_family sa = AF_INET6
          then sa # addresses ifas else addresses ifas)"

text \<open>The part of a list up to its first element with property \<open>P\<close>, that element included.\<close>

fun upto_first :: "('a \<Rightarrow> bool) \<Rightarrow> 'a list \<Rightarrow> 'a list" where
  "upto_first P [] = []"
| "upto_first P (x # xs) = (if P x then [x] else x # upto_first P xs)"

text \<open>The reverse lookups of a trace, and its stores to \<^verbatim>\<open>Fqdn\<close>.\<close>

fun lookups :: "action list \<Rightarrow> sockaddr list" where
  "lookups [] = []"
| "lookups (Call_getnameinfo sa # as) = sa # lookups as"
| "lookups (a # as) = lookups as"

fun fqdn_stores :: "action list \<Rightarrow> string list" where
  "fqdn_stores [] = []"
| "fqdn_stores (Store_Fqdn c # as) = c # fqdn_stores as"
| "fqdn_stores (a # as) = fqdn_stores as"

text \<open>
  The invariant of the record: \<^verbatim>\<open>Fqdn\<close> is the hostname itself, or it has the hostname
  as a contiguous part and is strictly longer.
\<close>

definition fqdn_inv :: "HostInfo \<Rightarrow> bool" where
  "fqdn_inv h =
     (Fqdn h = Hostname h
      \<or> (sublist (Hostname h) (Fqdn h) \<and> length (Hostname h) < length (Fqdn h)))"

text \<open>
  The value a run reports: what follows \<^verbatim>\<open>fqdn=\<close> on the last line of \<^verbatim>\<open>cerr\<close>, when the
  run got that far.
\<close>

definition reported :: "run \<Rightarrow> string option" where
  "reported r =
     (if cerr r \<noteq> [] \<and> take 5 (last (cerr r)) = ''fqdn=''
      then Some (drop 5 (last (cerr r))) else None)"





section \<open>Example runs\<close>

text \<open>
  A host named \<open>node01\<close> with a loopback entry, an entry without an address, a packet
  socket entry (family 17), and three IPv4 or IPv6 entries. The name service knows
  \<open>localhost\<close> for the loopback address, nothing for address 2 (it fails with
  \<^verbatim>\<open>EAI_NONAME\<close>, which is -2), and a qualified name for the addresses 3 and 4.
\<close>

definition entry :: "string \<Rightarrow> int \<Rightarrow> nat \<Rightarrow> ifaddrs" where
  "entry name fam bytes =
     \<lparr>ifa_name = name, ifa_addr = Some \<lparr>sa_family = fam, sa_data = bytes\<rparr>\<rparr>"

definition example_ifas :: "ifaddrs list" where
  "example_ifas =
     [entry ''lo'' AF_INET 1,
      \<lparr>ifa_name = ''tun0'', ifa_addr = None\<rparr>,
      entry ''eth0'' 17 0,
      entry ''eth0'' AF_INET 2,
      entry ''eth1'' AF_INET 3,
      entry ''eth1'' AF_INET6 4]"

definition example_dns :: "sockaddr \<Rightarrow> int \<times> string" where
  "example_dns sa =
     (if sa_data sa = 1 then (0, ''localhost'')
      else if sa_data sa = 3 then (0, ''node01.cluster.example.com'')
      else if sa_data sa = 4 then (0, ''node01.v6.example.com'')
      else (-2, []))"

definition example_os :: os where
  "example_os =
     \<lparr>os_gethostname = (0, ''node01''),
      os_getifaddrs = (0, example_ifas),
      os_getnameinfo = example_dns,
      os_create_timer = (0, 1),
      os_create_rdns = (0, 2),
      os_join_timer = 0,
      os_cancel_rdns = ESRCH,
      os_join_rdns = 0,
      os_rdns_cancelled_at = None\<rparr>"

text \<open>
  The same host when the name service knows no name at all, when the enumeration is
  empty, when it holds no IPv4 or IPv6 address (an entry without an address and a
  packet socket entry), when it fails, and when the timer ends during the first lookup:
  then \<^verbatim>\<open>pthread_cancel\<close> finds the resolver thread running and returns 0, and the
  thread ends inside that lookup.
\<close>

definition silent_dns :: "sockaddr \<Rightarrow> int \<times> string" where
  "silent_dns sa = (-2, [])"

definition no_name_os :: os where
  "no_name_os = example_os\<lparr>os_getnameinfo := silent_dns\<rparr>"

definition no_address_os :: os where
  "no_address_os = example_os\<lparr>os_getifaddrs := (0, [])\<rparr>"

definition no_inet_os :: os where
  "no_inet_os =
     example_os\<lparr>os_getifaddrs :=
       (0, [\<lparr>ifa_name = ''tun0'', ifa_addr = None\<rparr>, entry ''eth0'' 17 0])\<rparr>"

definition enum_failed_os :: os where
  "enum_failed_os = example_os\<lparr>os_getifaddrs := (-1, [])\<rparr>"

definition timeout_os :: os where
  "timeout_os = example_os\<lparr>os_cancel_rdns := 0, os_rdns_cancelled_at := Some 0\<rparr>"

section \<open>The acceptance test\<close>

lemma prefix_iff_take: "prefix b c \<longleftrightarrow> take (length b) c = b"
proof
  assume "prefix b c"
  then obtain z where "c = b @ z" by (auto simp: prefix_def)
  then show "take (length b) c = b" by simp
next
  assume "take (length b) c = b"
  then have "c = b @ drop (length b) c" by (metis append_take_drop_id)
  then show "prefix b c" unfolding prefix_def by blast
qed

lemma string_find_None_iff: "string_find c b = None \<longleftrightarrow> \<not> sublist b c"
proof (induction c)
  case Nil
  show ?case by simp
next
  case (Cons x xs)
  show ?case
  proof (cases "take (length b) (x # xs) = b")
    case True
    then have "prefix b (x # xs)" by (simp add: prefix_iff_take)
    then show ?thesis using True by (simp add: sublist_Cons_right)
  next
    case False
    then have "\<not> prefix b (x # xs)" by (simp add: prefix_iff_take)
    then show ?thesis using False Cons.IH by (simp add: sublist_Cons_right)
  qed
qed

text \<open>
  C1. For every candidate name \<open>c\<close> and base hostname \<open>b\<close>, the acceptance test of the
  resolver accepts \<open>c\<close> exactly when \<open>b\<close> occurs in \<open>c\<close> as a contiguous substring and
  \<open>c\<close> is strictly longer than \<open>b\<close>. In particular \<open>c = b\<close> is rejected, and so is every
  \<open>c\<close> that is not longer than \<open>b\<close>.
\<close>

theorem accepted_iff_strict_substring:
  "(accepted b c \<longleftrightarrow> sublist b c \<and> length b < length c)
   \<and> \<not> accepted b b
   \<and> (length c \<le> length b \<longrightarrow> \<not> accepted b c)"
  by (simp add: accepted_def string_find_None_iff)

theorem accepted_iff_strict_substring_witness:
  "accepted ''node01'' ''node01.cluster.example.com''
   \<and> sublist ''node01'' ''node01.cluster.example.com''
   \<and> \<not> accepted ''node01'' ''node01''
   \<and> length ''node'' \<le> length ''node01'' \<and> \<not> accepted ''node01'' ''node''"
  using accepted_iff_strict_substring [of "''node01''" "''node01.cluster.example.com''"]
    accepted_iff_strict_substring [of "''node01''" "''node''"]
  by (simp add: accepted_def)

section \<open>The loop of the resolver\<close>

lemma scan_skip:
  "\<not> eligible ifa \<Longrightarrow> scan gni base k (ifa # ifas) s = scan gni base k ifas s"
  by (simp add: eligible_def AF_INET_def AF_INET6_def split: option.splits)

lemma scan_cancel:
  "eligible ifa \<Longrightarrow> ifa_addr ifa = Some sa \<Longrightarrow>
   scan gni base (Some 0) (ifa # ifas) s =
     s\<lparr>trace := trace s @ [Call_getnameinfo sa], cancelled := True\<rparr>"
  by (simp add: eligible_def Let_def)

lemma scan_fail:
  "eligible ifa \<Longrightarrow> ifa_addr ifa = Some sa \<Longrightarrow> k \<noteq> Some 0 \<Longrightarrow> fst (gni sa) \<noteq> 0 \<Longrightarrow>
   scan gni base k (ifa # ifas) s =
     scan gni base (map_option (\<lambda>n. n - 1) k) ifas
       (SetError (-3) (s\<lparr>trace := trace s @ [Call_getnameinfo sa]\<rparr>))"
  by (simp add: eligible_def Let_def)

lemma scan_accept:
  "eligible ifa \<Longrightarrow> ifa_addr ifa = Some sa \<Longrightarrow> k \<noteq> Some 0 \<Longrightarrow> fst (gni sa) = 0 \<Longrightarrow>
   accepted base (snd (gni sa)) \<Longrightarrow>
   scan gni base k (ifa # ifas) s =
     SetFqdn (snd (gni sa)) (s\<lparr>trace := trace s @ [Call_getnameinfo sa]\<rparr>)"
  by (simp add: eligible_def Let_def)

lemma scan_reject:
  "eligible ifa \<Longrightarrow> ifa_addr ifa = Some sa \<Longrightarrow> k \<noteq> Some 0 \<Longrightarrow> fst (gni sa) = 0 \<Longrightarrow>
   \<not> accepted base (snd (gni sa)) \<Longrightarrow>
   scan gni base k (ifa # ifas) s =
     scan gni base (map_option (\<lambda>n. n - 1) k) ifas
       (s\<lparr>trace := trace s @ [Call_getnameinfo sa]\<rparr>)"
  by (simp add: eligible_def Let_def)

lemma eligible_Some: "eligible ifa \<Longrightarrow> \<exists>sa. ifa_addr ifa = Some sa"
  by (simp add: eligible_def split: option.splits)

lemma yields_iff:
  "ifa_addr ifa = Some sa \<Longrightarrow>
   yields gni base ifa \<longleftrightarrow> eligible ifa \<and> fst (gni sa) = 0 \<and> accepted base (snd (gni sa))"
  by (simp add: yields_def eligible_def)

lemma yields_eligible: "yields gni base ifa \<Longrightarrow> eligible ifa"
  by (simp add: yields_def eligible_def split: option.splits)

lemma addresses_Cons_eligible:
  "eligible ifa \<Longrightarrow> ifa_addr ifa = Some sa \<Longrightarrow> addresses (ifa # ifas) = sa # addresses ifas"
  by (simp add: eligible_def)

lemma addresses_Cons_skip: "\<not> eligible ifa \<Longrightarrow> addresses (ifa # ifas) = addresses ifas"
  by (auto simp: eligible_def split: option.splits)

lemma addresses_append: "addresses (xs @ ys) = addresses xs @ addresses ys"
  by (induction xs) (simp_all split: option.splits)

lemma lookups_append: "lookups (xs @ ys) = lookups xs @ lookups ys"
  by (induction xs rule: lookups.induct) simp_all

lemma fqdn_stores_append: "fqdn_stores (xs @ ys) = fqdn_stores xs @ fqdn_stores ys"
  by (induction xs rule: fqdn_stores.induct) simp_all

text \<open>The five ways in which the loop body treats an entry.\<close>
lemma scan_Cons_cases:
  obtains (skip) "\<not> eligible ifa"
  | (cancel) sa where "eligible ifa" "ifa_addr ifa = Some sa" "k = Some 0"
  | (fail) sa where "eligible ifa" "ifa_addr ifa = Some sa" "k \<noteq> Some 0" "fst (gni sa) \<noteq> 0"
  | (accept) sa where "eligible ifa" "ifa_addr ifa = Some sa" "k \<noteq> Some 0" "fst (gni sa) = 0"
      "accepted base (snd (gni sa))"
  | (reject) sa where "eligible ifa" "ifa_addr ifa = Some sa" "k \<noteq> Some 0" "fst (gni sa) = 0"
      "\<not> accepted base (snd (gni sa))"
  using eligible_Some [of ifa] by blast

lemma scan_Hostname: "Hostname (info (scan gni base k ifas s)) = Hostname (info s)"
proof (induction ifas arbitrary: k s)
  case Nil
  show ?case by simp
next
  case (Cons ifa ifas)
  show ?case
  proof (cases rule: scan_Cons_cases [where ifa = ifa and k = k and gni = gni and base = base])
    case skip
    then show ?thesis using Cons.IH by (simp add: scan_skip del: scan.simps)
  next
    case (cancel sa)
    then show ?thesis by (simp add: scan_cancel del: scan.simps)
  next
    case (fail sa)
    then show ?thesis using Cons.IH by (simp add: scan_fail SetError_def del: scan.simps)
  next
    case (accept sa)
    then show ?thesis by (simp add: scan_accept SetFqdn_def del: scan.simps)
  next
    case (reject sa)
    then show ?thesis using Cons.IH by (simp add: scan_reject del: scan.simps)
  qed
qed


lemma scan_TimerTid: "TimerTid (info (scan gni base k ifas s)) = TimerTid (info s)"
  by (induction gni base k ifas s rule: scan.induct)
     (auto simp: Let_def SetError_def SetFqdn_def split: option.splits)

lemma scan_inv:
  "base = Hostname (info s) \<Longrightarrow> fqdn_inv (info s) \<Longrightarrow> fqdn_inv (info (scan gni base k ifas s))"
  by (induction gni base k ifas s rule: scan.induct)
     (auto simp: Let_def SetError_def SetFqdn_def fqdn_inv_def accepted_def string_find_None_iff split: option.splits)


lemma scan_no_yield_info:
  "\<forall>x\<in>set ifas. \<not> yields gni base x \<Longrightarrow>
   Fqdn (info (scan gni base None ifas s)) = Fqdn (info s)"
  by (induction ifas arbitrary: s)
     (auto simp: Let_def SetError_def yields_def split: option.splits)

lemma scan_no_yield_stores:
  "\<forall>x\<in>set ifas. \<not> yields gni base x \<Longrightarrow>
   fqdn_stores (trace (scan gni base None ifas s)) = fqdn_stores (trace s)"
  by (induction ifas arbitrary: s)
     (auto simp: Let_def SetError_def yields_def fqdn_stores_append split: option.splits)

lemma scan_no_yield_lookups:
  "\<forall>x\<in>set ifas. \<not> yields gni base x \<Longrightarrow>
   lookups (trace (scan gni base None ifas s)) = lookups (trace s) @ addresses ifas"
  by (induction ifas arbitrary: s)
     (auto simp: Let_def SetError_def yields_def lookups_append split: option.splits)

lemma scan_append_no_yield:
  "\<forall>x\<in>set pre. \<not> yields gni base x \<Longrightarrow>
   scan gni base None (pre @ rest) s = scan gni base None rest (scan gni base None pre s)"
proof (induction pre arbitrary: s)
  case Nil
  show ?case by simp
next
  case (Cons ifa pre)
  from Cons.prems have ny: "\<not> yields gni base ifa" and rest: "\<forall>x\<in>set pre. \<not> yields gni base x"
    by simp_all
  note IH = Cons.IH [OF rest]
  show ?case
  proof (cases "ifa_addr ifa")
    case None
    then show ?thesis using IH by (simp add: AF_INET_def AF_INET6_def)
  next
    case (Some sa)
    then show ?thesis using IH ny by (auto simp: Let_def yields_def)
  qed
qed

lemma scan_cancelled_None: "cancelled (scan gni base None ifas s) = cancelled s"
  by (induction ifas arbitrary: s)
     (auto simp: Let_def SetError_def SetFqdn_def split: option.splits)

lemma scan_stores_le:
  "length (fqdn_stores (trace (scan gni base k ifas s))) \<le> Suc (length (fqdn_stores (trace s)))"
  by (induction gni base k ifas s rule: scan.induct)
     (auto simp: Let_def SetError_def SetFqdn_def fqdn_stores_append split: option.splits)

lemma scan_stores_accepted:
  "c \<in> set (fqdn_stores (trace (scan gni base k ifas s))) \<Longrightarrow>
   c \<in> set (fqdn_stores (trace s)) \<or> accepted base c"
  by (induction gni base k ifas s rule: scan.induct)
     (auto simp: Let_def SetError_def SetFqdn_def fqdn_stores_append split: option.splits if_splits)

lemma upto_first_no: "\<forall>x\<in>set xs. \<not> P x \<Longrightarrow> upto_first P xs = xs"
  by (induction xs) simp_all

lemma upto_first_append:
  "\<forall>x\<in>set pre. \<not> P x \<Longrightarrow> P x \<Longrightarrow> upto_first P (pre @ x # post) = pre @ [x]"
  by (induction pre) simp_all

lemma upto_first_append_no:
  "\<forall>x\<in>set pre. \<not> P x \<Longrightarrow> upto_first P (pre @ post) = pre @ upto_first P post"
  by (induction pre) simp_all

lemma scan_lookups:
  "lookups (trace (scan gni base None ifas s)) =
     lookups (trace s) @ addresses (upto_first (yields gni base) ifas)"
  by (induction ifas arbitrary: s)
     (auto simp: Let_def SetError_def SetFqdn_def yields_def lookups_append split: option.splits)

section \<open>The resolver\<close>

lemma getfqdn_ok:
  "fst (os_getifaddrs sys) = 0 \<Longrightarrow>
   getfqdn sys k s =
     (let s1 = scan (os_getnameinfo sys) (Hostname (info s)) k (snd (os_getifaddrs sys))
                 (s\<lparr>trace := trace s @ [Call_getifaddrs]\<rparr>)
      in if cancelled s1 then s1 else s1\<lparr>trace := trace s1 @ [Call_freeifaddrs]\<rparr>)"
  by (simp add: getfqdn_def GetHostname_def Let_def)

lemma getfqdn_failed:
  "fst (os_getifaddrs sys) \<noteq> 0 \<Longrightarrow>
   getfqdn sys k s = SetError (-2) (s\<lparr>trace := trace s @ [Call_getifaddrs]\<rparr>)"
  by (simp add: getfqdn_def Let_def)

lemma getfqdn_info:
  "fst (os_getifaddrs sys) = 0 \<Longrightarrow>
   info (getfqdn sys k s) =
     info (scan (os_getnameinfo sys) (Hostname (info s)) k (snd (os_getifaddrs sys))
             (s\<lparr>trace := trace s @ [Call_getifaddrs]\<rparr>))"
  by (simp add: getfqdn_ok Let_def)

lemma getfqdn_lookups:
  "fst (os_getifaddrs sys) = 0 \<Longrightarrow>
   lookups (trace (getfqdn sys k s)) =
     lookups (trace (scan (os_getnameinfo sys) (Hostname (info s)) k (snd (os_getifaddrs sys))
             (s\<lparr>trace := trace s @ [Call_getifaddrs]\<rparr>)))"
  by (simp add: getfqdn_ok Let_def lookups_append)

lemma getfqdn_stores:
  "fst (os_getifaddrs sys) = 0 \<Longrightarrow>
   fqdn_stores (trace (getfqdn sys k s)) =
     fqdn_stores (trace (scan (os_getnameinfo sys) (Hostname (info s)) k (snd (os_getifaddrs sys))
             (s\<lparr>trace := trace s @ [Call_getifaddrs]\<rparr>)))"
  by (simp add: getfqdn_ok Let_def fqdn_stores_append)

lemma getfqdn_stores_le:
  "length (fqdn_stores (trace (getfqdn sys k s))) \<le> Suc (length (fqdn_stores (trace s)))"
proof (cases "fst (os_getifaddrs sys) = 0")
  case True
  have "length (fqdn_stores (trace (scan (os_getnameinfo sys) (Hostname (info s)) k
          (snd (os_getifaddrs sys)) (s\<lparr>trace := trace s @ [Call_getifaddrs]\<rparr>))))
        \<le> Suc (length (fqdn_stores (trace (s\<lparr>trace := trace s @ [Call_getifaddrs]\<rparr>))))"
    by (rule scan_stores_le)
  then show ?thesis using True by (simp add: getfqdn_stores fqdn_stores_append)
next
  case False
  then show ?thesis by (simp add: getfqdn_failed SetError_def fqdn_stores_append)
qed

text \<open>
  C4. When several addresses of the enumeration would yield an accepted candidate, the
  resolver records the first of them in enumeration order and stops scanning at once:
  if no entry before \<open>ifa\<close> yields an accepted candidate and \<open>ifa\<close> does, then after a
  run that is not cancelled \<^verbatim>\<open>Fqdn\<close> is the name found for \<open>ifa\<close>, the lookups made are
  those of the eligible entries up to \<open>ifa\<close> and none of a later entry, and \<^verbatim>\<open>Fqdn\<close> was
  stored exactly once. In every run, cancelled or not, \<^verbatim>\<open>Fqdn\<close> is stored at most once.
\<close>

theorem first_accepted_candidate_wins:
  assumes enum: "os_getifaddrs sys = (0, pre @ ifa # post)"
    and pre: "\<forall>x\<in>set pre. \<not> yields (os_getnameinfo sys) (Hostname (info s)) x"
    and ifa: "yields (os_getnameinfo sys) (Hostname (info s)) ifa"
    and sa: "ifa_addr ifa = Some sa"
  shows "Fqdn (info (getfqdn sys None s)) = snd (os_getnameinfo sys sa)
    \<and> lookups (trace (getfqdn sys None s)) = lookups (trace s) @ addresses pre @ [sa]
    \<and> fqdn_stores (trace (getfqdn sys None s)) = fqdn_stores (trace s) @ [snd (os_getnameinfo sys sa)]
    \<and> length (fqdn_stores (trace (getfqdn sys k s))) \<le> length (fqdn_stores (trace s)) + 1"
proof -
  let ?gni = "os_getnameinfo sys" and ?base = "Hostname (info s)"
  let ?s0 = "s\<lparr>trace := trace s @ [Call_getifaddrs]\<rparr>"
  let ?sp = "scan ?gni ?base None pre ?s0"
  let ?s1 = "scan ?gni ?base None (pre @ ifa # post) ?s0"
  from enum have ok: "fst (os_getifaddrs sys) = 0" and ifas: "snd (os_getifaddrs sys) = pre @ ifa # post"
    by simp_all
  from ifa sa have el: "eligible ifa" and zero: "fst (?gni sa) = 0"
    and acc: "accepted ?base (snd (?gni sa))"
    by (simp_all add: yields_iff)
  have "?s1 = scan ?gni ?base None (ifa # post) ?sp"
    using pre by (rule scan_append_no_yield)
  also have "\<dots> = SetFqdn (snd (?gni sa)) (?sp\<lparr>trace := trace ?sp @ [Call_getnameinfo sa]\<rparr>)"
    using el sa zero acc by (simp add: scan_accept del: scan.simps)
  finally have s1: "?s1 = SetFqdn (snd (?gni sa)) (?sp\<lparr>trace := trace ?sp @ [Call_getnameinfo sa]\<rparr>)" .
  have lp: "lookups (trace ?sp) = lookups (trace s) @ addresses pre"
    using scan_no_yield_lookups [OF pre, of ?s0] by (simp add: lookups_append)
  have sp: "fqdn_stores (trace ?sp) = fqdn_stores (trace s)"
    using scan_no_yield_stores [OF pre, of ?s0] by (simp add: fqdn_stores_append)
  have "Fqdn (info (getfqdn sys None s)) = snd (?gni sa)"
    using ok ifas s1 by (simp add: getfqdn_info SetFqdn_def)
  moreover have "lookups (trace (getfqdn sys None s)) = lookups (trace s) @ addresses pre @ [sa]"
    using ok ifas s1 lp by (simp add: getfqdn_lookups SetFqdn_def lookups_append)
  moreover have "fqdn_stores (trace (getfqdn sys None s)) = fqdn_stores (trace s) @ [snd (?gni sa)]"
    using ok ifas s1 sp by (simp add: getfqdn_stores SetFqdn_def fqdn_stores_append)
  moreover have "length (fqdn_stores (trace (getfqdn sys k s))) \<le> length (fqdn_stores (trace s)) + 1"
    using getfqdn_stores_le [of sys k s] by simp
  ultimately show ?thesis by blast
qed

theorem first_accepted_candidate_wins_witness:
  "yields example_dns ''node01'' (entry ''eth1'' AF_INET 3)
   \<and> yields example_dns ''node01'' (entry ''eth1'' AF_INET6 4)
   \<and> Fqdn (info (getfqdn example_os None (fresh (HostInfo_ctor (0, ''node01'')))))
       = ''node01.cluster.example.com''
   \<and> lookups (trace (getfqdn example_os None (fresh (HostInfo_ctor (0, ''node01'')))))
       = [\<lparr>sa_family = AF_INET, sa_data = 1\<rparr>, \<lparr>sa_family = AF_INET, sa_data = 2\<rparr>,
          \<lparr>sa_family = AF_INET, sa_data = 3\<rparr>]
   \<and> fqdn_stores (trace (getfqdn example_os None (fresh (HostInfo_ctor (0, ''node01'')))))
       = [''node01.cluster.example.com'']"
proof -
  let ?pre = "[entry ''lo'' AF_INET 1, \<lparr>ifa_name = ''tun0'', ifa_addr = None\<rparr>,
               entry ''eth0'' 17 0, entry ''eth0'' AF_INET 2]"
  let ?s = "fresh (HostInfo_ctor (0, ''node01''))"
  have h1: "os_getifaddrs example_os
              = (0, ?pre @ entry ''eth1'' AF_INET 3 # [entry ''eth1'' AF_INET6 4])"
    by (simp add: example_os_def example_ifas_def)
  have base: "Hostname (info ?s) = ''node01''"
    by (simp add: fresh_def HostInfo_ctor_def Let_def)
  have gni: "os_getnameinfo example_os = example_dns"
    by (simp add: example_os_def)
  have h2: "\<forall>x\<in>set ?pre. \<not> yields (os_getnameinfo example_os) (Hostname (info ?s)) x"
    by (simp add: base gni yields_def entry_def example_dns_def accepted_def
        AF_INET_def AF_INET6_def)
  have y3: "yields example_dns ''node01'' (entry ''eth1'' AF_INET 3)"
    by (simp add: yields_def entry_def example_dns_def accepted_def)
  have y4: "yields example_dns ''node01'' (entry ''eth1'' AF_INET6 4)"
    by (simp add: yields_def entry_def example_dns_def accepted_def)
  have h3: "yields (os_getnameinfo example_os) (Hostname (info ?s)) (entry ''eth1'' AF_INET 3)"
    using y3 by (simp add: base gni)
  have h4: "ifa_addr (entry ''eth1'' AF_INET 3) = Some \<lparr>sa_family = AF_INET, sa_data = 3\<rparr>"
    by (simp add: entry_def)
  have tr: "trace ?s = []"
    by (simp add: fresh_def)
  have nm: "snd (example_dns \<lparr>sa_family = 2, sa_data = 3\<rparr>) = ''node01.cluster.example.com''"
    by (simp add: example_dns_def)
  from first_accepted_candidate_wins [OF h1 h2 h3 h4, of None] y3 y4
  show ?thesis
    by (simp add: gni tr nm entry_def AF_INET_def AF_INET6_def)
qed

lemma getfqdn_no_match:
  assumes enum: "os_getifaddrs sys = (0, ifas)"
    and none: "\<forall>x\<in>set ifas. \<not> yields (os_getnameinfo sys) (Hostname (info s)) x"
    and init: "Fqdn (info s) = Hostname (info s)"
  shows "GetFqdn (info (getfqdn sys None s)) = Hostname (info s)"
proof -
  let ?s0 = "s\<lparr>trace := trace s @ [Call_getifaddrs]\<rparr>"
  let ?s1 = "scan (os_getnameinfo sys) (Hostname (info s)) None ifas ?s0"
  have i: "info (getfqdn sys None s) = info ?s1"
    using enum by (simp add: getfqdn_info)
  have "Fqdn (info ?s1) = Fqdn (info ?s0)"
    using none by (rule scan_no_yield_info)
  moreover have "Hostname (info ?s1) = Hostname (info ?s0)"
    by (rule scan_Hostname)
  ultimately show ?thesis
    using init by (simp add: i GetFqdn_def)
qed

lemma getfqdn_no_match_trace:
  assumes enum: "os_getifaddrs sys = (0, ifas)"
    and none: "\<forall>x\<in>set ifas. \<not> yields (os_getnameinfo sys) (Hostname (info s)) x"
  shows "lookups (trace (getfqdn sys None s)) = lookups (trace s) @ addresses ifas"
    and "fqdn_stores (trace (getfqdn sys None s)) = fqdn_stores (trace s)"
  using enum scan_no_yield_lookups [OF none] scan_no_yield_stores [OF none]
  by (simp_all add: getfqdn_lookups getfqdn_stores lookups_append fqdn_stores_append)

lemma main_reaches_report:
  assumes "length argv = 2" "fst (os_create_timer sys) = 0" "fst (os_create_rdns sys) = 0"
    "os_join_timer sys = 0" "os_join_rdns sys = 0"
  shows "ret (main argv sys) = 0"
    and "rdns (main argv sys) =
           Some (getfqdn sys (os_rdns_cancelled_at sys)
                  (fresh (SetTimerThreadId (snd (os_create_timer sys))
                            (HostInfo_ctor (os_gethostname sys)))))"
    and "reported (main argv sys) =
           Some (GetFqdn (info (getfqdn sys (os_rdns_cancelled_at sys)
                  (fresh (SetTimerThreadId (snd (os_create_timer sys))
                            (HostInfo_ctor (os_gethostname sys)))))))"
  using assms by (simp_all add: main_def Let_def reported_def)

lemma initial_info:
  "Hostname (info (fresh (SetTimerThreadId t (HostInfo_ctor r)))) = snd r"
  "Fqdn (info (fresh (SetTimerThreadId t (HostInfo_ctor r)))) = snd r"
  "trace (fresh h) = []"
  "cancelled (fresh h) = False"
  by (simp_all add: fresh_def SetTimerThreadId_def HostInfo_ctor_def Let_def)

text \<open>
  C5. If the resolver runs to its end and no enumerated address yields an accepted
  candidate, the case of no address at all included, then the value \<^verbatim>\<open>main\<close> reports is
  the original hostname and \<^verbatim>\<open>main\<close> returns 0. The threads are taken to have been
  started and joined without error, since the resolver must have run; a failing thread
  call is a different, fatal condition.
\<close>

theorem no_match_reports_hostname:
  assumes argc: "length argv = 2"
    and started: "fst (os_create_timer sys) = 0" "fst (os_create_rdns sys) = 0"
    and joined: "os_join_timer sys = 0" "os_join_rdns sys = 0"
    and complete: "os_rdns_cancelled_at sys = None"
    and enum: "os_getifaddrs sys = (0, ifas)"
    and none: "\<forall>x\<in>set ifas. \<not> yields (os_getnameinfo sys) (snd (os_gethostname sys)) x"
  shows "ret (main argv sys) = 0
    \<and> reported (main argv sys) = Some (snd (os_gethostname sys))
    \<and> map_option (lookups \<circ> trace) (rdns (main argv sys)) = Some (addresses ifas)
    \<and> map_option (fqdn_stores \<circ> trace) (rdns (main argv sys)) = Some []"
proof -
  let ?s = "fresh (SetTimerThreadId (snd (os_create_timer sys)) (HostInfo_ctor (os_gethostname sys)))"
  have none': "\<forall>x\<in>set ifas. \<not> yields (os_getnameinfo sys) (Hostname (info ?s)) x"
    using none by (simp add: initial_info)
  have "GetFqdn (info (getfqdn sys None ?s)) = Hostname (info ?s)"
    using enum none' by (rule getfqdn_no_match) (simp add: initial_info)
  then have g: "GetFqdn (info (getfqdn sys None ?s)) = snd (os_gethostname sys)"
    by (simp add: initial_info)
  note t = getfqdn_no_match_trace [OF enum none']
  show ?thesis
    using main_reaches_report [OF argc started joined] complete g t
    by (simp add: initial_info)
qed

theorem no_match_reports_hostname_witness:
  "ret (main [''a.out'', ''500''] no_name_os) = 0
   \<and> reported (main [''a.out'', ''500''] no_name_os) = Some ''node01''
   \<and> ret (main [''a.out'', ''500''] no_address_os) = 0
   \<and> reported (main [''a.out'', ''500''] no_address_os) = Some ''node01''"
proof -
  have a: "length [''a.out'', ''500''] = 2"
    by simp
  have n1: "\<forall>x\<in>set example_ifas.
              \<not> yields (os_getnameinfo no_name_os) (snd (os_gethostname no_name_os)) x"
    by (simp add: no_name_os_def example_os_def example_ifas_def yields_def silent_dns_def
        entry_def)
  have n2: "\<forall>x\<in>set [].
              \<not> yields (os_getnameinfo no_address_os) (snd (os_gethostname no_address_os)) x"
    by simp
  have r1: "ret (main [''a.out'', ''500''] no_name_os) = 0
     \<and> reported (main [''a.out'', ''500''] no_name_os) = Some (snd (os_gethostname no_name_os))"
    using no_match_reports_hostname [OF a _ _ _ _ _ _ n1]
    by (simp add: no_name_os_def example_os_def)
  have r2: "ret (main [''a.out'', ''500''] no_address_os) = 0
     \<and> reported (main [''a.out'', ''500''] no_address_os) = Some (snd (os_gethostname no_address_os))"
    using no_match_reports_hostname [OF a _ _ _ _ _ _ n2]
    by (simp add: no_address_os_def example_os_def)
  from r1 r2 show ?thesis
    by (simp add: no_name_os_def no_address_os_def example_os_def)
qed

section \<open>The invariant of the record\<close>

lemma accepted_sublist: "accepted b c \<Longrightarrow> sublist b c \<and> length b < length c"
  using string_find_None_iff [of c b] by (simp add: accepted_def)

lemma fqdn_inv_ctor: "fqdn_inv (HostInfo_ctor r)"
  by (simp add: fqdn_inv_def HostInfo_ctor_def Let_def)

lemma fqdn_inv_SetFqdn:
  "accepted (Hostname (info s)) c \<Longrightarrow> fqdn_inv (info (SetFqdn c s))"
  using accepted_sublist by (simp add: fqdn_inv_def SetFqdn_def)

lemma getfqdn_inv:
  assumes "fqdn_inv (info s)"
  shows "fqdn_inv (info (getfqdn sys k s))"
proof (cases "fst (os_getifaddrs sys) = 0")
  case True
  have "fqdn_inv (info (scan (os_getnameinfo sys) (Hostname (info s)) k (snd (os_getifaddrs sys))
          (s\<lparr>trace := trace s @ [Call_getifaddrs]\<rparr>)))"
    using assms by (intro scan_inv) simp_all
  with True show ?thesis by (simp add: getfqdn_info)
next
  case False
  with assms show ?thesis by (simp add: getfqdn_failed SetError_def fqdn_inv_def)
qed

lemma getfqdn_stores_accepted:
  assumes "c \<in> set (fqdn_stores (trace (getfqdn sys k s)))"
  shows "c \<in> set (fqdn_stores (trace s)) \<or> accepted (Hostname (info s)) c"
proof (cases "fst (os_getifaddrs sys) = 0")
  case True
  with assms have "c \<in> set (fqdn_stores (trace (scan (os_getnameinfo sys) (Hostname (info s)) k
      (snd (os_getifaddrs sys)) (s\<lparr>trace := trace s @ [Call_getifaddrs]\<rparr>))))"
    by (simp add: getfqdn_stores)
  from scan_stores_accepted [OF this] show ?thesis by (simp add: fqdn_stores_append)
next
  case False
  with assms show ?thesis by (simp add: getfqdn_failed SetError_def fqdn_stores_append)
qed

lemma main_rdns:
  "rdns (main argv sys) = Some th \<Longrightarrow>
   th = getfqdn sys (os_rdns_cancelled_at sys)
          (fresh (SetTimerThreadId (snd (os_create_timer sys)) (HostInfo_ctor (os_gethostname sys))))"
  by (simp add: main_def Let_def split: if_splits)

text \<open>
  C6. At every point of a resolution \<^verbatim>\<open>Fqdn\<close> is either equal to \<^verbatim>\<open>Hostname\<close>, or a
  string that has \<^verbatim>\<open>Hostname\<close> as a contiguous part and is strictly longer. The
  constructor establishes this; setting the timer's thread id and setting the error
  keep it; \<^verbatim>\<open>SetFqdn\<close> establishes it when its argument has passed the acceptance test
  against the hostname, which is the one way \<^verbatim>\<open>getfqdn\<close> calls it; a run of \<^verbatim>\<open>getfqdn\<close>,
  wherever it is cancelled, keeps it, and every value it stores to \<^verbatim>\<open>Fqdn\<close> has the
  hostname as a contiguous part and is strictly longer; and it holds of the record that
  \<^verbatim>\<open>main\<close> reads once the resolver thread has ended.
\<close>

theorem fqdn_invariant:
  "fqdn_inv (HostInfo_ctor r)
   \<and> (fqdn_inv h \<longrightarrow> fqdn_inv (SetTimerThreadId tid h))
   \<and> (fqdn_inv (info s) \<longrightarrow> fqdn_inv (info (SetError err s)))
   \<and> (accepted (GetHostname (info s)) c \<longrightarrow> fqdn_inv (info (SetFqdn c s)))
   \<and> (fqdn_inv (info s) \<longrightarrow> fqdn_inv (info (getfqdn sys k s)))
   \<and> (\<forall>c \<in> set (fqdn_stores (trace (getfqdn sys k (s\<lparr>trace := []\<rparr>)))).
          sublist (Hostname (info s)) c \<and> length (Hostname (info s)) < length c)
   \<and> (\<forall>th. rdns (main argv sys) = Some th \<longrightarrow> fqdn_inv (info th))"
proof -
  have 1: "fqdn_inv (HostInfo_ctor r)" by (rule fqdn_inv_ctor)
  have 2: "fqdn_inv h \<longrightarrow> fqdn_inv (SetTimerThreadId tid h)"
    by (simp add: fqdn_inv_def SetTimerThreadId_def)
  have 3: "fqdn_inv (info s) \<longrightarrow> fqdn_inv (info (SetError err s))"
    by (simp add: fqdn_inv_def SetError_def)
  have 4: "accepted (GetHostname (info s)) c \<longrightarrow> fqdn_inv (info (SetFqdn c s))"
    by (simp add: GetHostname_def fqdn_inv_SetFqdn)
  have 5: "fqdn_inv (info s) \<longrightarrow> fqdn_inv (info (getfqdn sys k s))"
    by (simp add: getfqdn_inv)
  have 6: "\<forall>c \<in> set (fqdn_stores (trace (getfqdn sys k (s\<lparr>trace := []\<rparr>)))).
           sublist (Hostname (info s)) c \<and> length (Hostname (info s)) < length c"
  proof
    fix c assume "c \<in> set (fqdn_stores (trace (getfqdn sys k (s\<lparr>trace := []\<rparr>))))"
    from getfqdn_stores_accepted [OF this] have "accepted (Hostname (info s)) c" by simp
    then show "sublist (Hostname (info s)) c \<and> length (Hostname (info s)) < length c"
      by (rule accepted_sublist)
  qed
  have 7: "\<forall>th. rdns (main argv sys) = Some th \<longrightarrow> fqdn_inv (info th)"
  proof (intro allI impI)
    fix th assume "rdns (main argv sys) = Some th"
    then have th: "th = getfqdn sys (os_rdns_cancelled_at sys)
          (fresh (SetTimerThreadId (snd (os_create_timer sys)) (HostInfo_ctor (os_gethostname sys))))"
      by (rule main_rdns)
    have "fqdn_inv (SetTimerThreadId (snd (os_create_timer sys)) (HostInfo_ctor (os_gethostname sys)))"
      using 1 2 by (simp add: fqdn_inv_def SetTimerThreadId_def HostInfo_ctor_def Let_def)
    then have "fqdn_inv (info (fresh (SetTimerThreadId (snd (os_create_timer sys))
          (HostInfo_ctor (os_gethostname sys)))))"
      by (simp add: fresh_def)
    then show "fqdn_inv (info th)"
      unfolding th by (rule getfqdn_inv)
  qed
  from 1 2 3 4 5 6 7 show ?thesis by blast
qed

theorem fqdn_invariant_witness:
  "fqdn_inv (HostInfo_ctor (0, ''node01''))
   \<and> fqdn_inv (SetTimerThreadId 1 (HostInfo_ctor (0, ''node01'')))
   \<and> fqdn_inv (info (SetError (-3) (fresh (HostInfo_ctor (0, ''node01'')))))
   \<and> accepted (GetHostname (info (fresh (HostInfo_ctor (0, ''node01'')))))
        ''node01.cluster.example.com''
   \<and> fqdn_inv (info (SetFqdn ''node01.cluster.example.com'' (fresh (HostInfo_ctor (0, ''node01'')))))
   \<and> fqdn_inv (info (getfqdn example_os None (fresh (HostInfo_ctor (0, ''node01'')))))
   \<and> fqdn_stores (trace (getfqdn example_os None (fresh (HostInfo_ctor (0, ''node01'')))))
        = [''node01.cluster.example.com'']
   \<and> sublist ''node01'' ''node01.cluster.example.com''
   \<and> (\<exists>th. rdns (main [''a.out'', ''500''] example_os) = Some th \<and> fqdn_inv (info th))"
proof -
  let ?h = "HostInfo_ctor (0, ''node01'')"
  let ?s = "fresh ?h"
  let ?c = "''node01.cluster.example.com''"
  note T = fqdn_invariant [of "(0, ''node01'')" ?h 1 ?s "-3" ?c example_os None "[''a.out'', ''500'']"]
  have acc: "accepted (GetHostname (info ?s)) ?c"
    by (simp add: GetHostname_def fresh_def HostInfo_ctor_def Let_def accepted_def)
  have tr: "?s\<lparr>trace := []\<rparr> = ?s"
    by (simp add: fresh_def)
  have st: "fqdn_stores (trace (getfqdn example_os None ?s)) = [?c]"
    by (simp add: getfqdn_def fresh_def HostInfo_ctor_def Let_def example_os_def
        example_ifas_def entry_def example_dns_def AF_INET_def AF_INET6_def accepted_def
        GetHostname_def SetError_def SetFqdn_def)
  have hn: "Hostname (info ?s) = ''node01''"
    by (simp add: fresh_def HostInfo_ctor_def Let_def)
  have r: "rdns (main [''a.out'', ''500''] example_os)
            = Some (getfqdn example_os None (fresh (SetTimerThreadId 1 ?h)))"
    by (simp add: main_def example_os_def Let_def)
  from T have 1: "fqdn_inv ?h" and 2: "fqdn_inv ?h \<longrightarrow> fqdn_inv (SetTimerThreadId 1 ?h)"
    and 3: "fqdn_inv (info ?s) \<longrightarrow> fqdn_inv (info (SetError (-3) ?s))"
    and 4: "accepted (GetHostname (info ?s)) ?c \<longrightarrow> fqdn_inv (info (SetFqdn ?c ?s))"
    and 5: "fqdn_inv (info ?s) \<longrightarrow> fqdn_inv (info (getfqdn example_os None ?s))"
    and 6: "\<forall>c \<in> set (fqdn_stores (trace (getfqdn example_os None (?s\<lparr>trace := []\<rparr>)))).
           sublist (Hostname (info ?s)) c \<and> length (Hostname (info ?s)) < length c"
    and 7: "\<forall>th. rdns (main [''a.out'', ''500''] example_os) = Some th \<longrightarrow> fqdn_inv (info th)"
    by blast+
  have i: "fqdn_inv (info ?s)"
    using 1 by (simp add: fresh_def)
  from 6 have "sublist ''node01'' ?c"
    unfolding tr st hn by simp
  moreover from 7 r have "\<exists>th. rdns (main [''a.out'', ''500''] example_os) = Some th \<and> fqdn_inv (info th)"
    by blast
  ultimately show ?thesis
    using 1 2 3 4 5 i acc st by blast
qed

section \<open>Failure of the enumeration\<close>

lemma scan_trace_extends: "\<exists>ys. trace (scan gni base k ifas s) = trace s @ ys"
proof (induction ifas arbitrary: k s)
  case Nil
  show ?case by simp
next
  case (Cons ifa ifas)
  show ?case
  proof (cases rule: scan_Cons_cases [where ifa = ifa and k = k and gni = gni and base = base])
    case skip
    then show ?thesis using Cons.IH [of k s] by (simp add: scan_skip del: scan.simps)
  next
    case (cancel sa)
    then show ?thesis by (simp add: scan_cancel del: scan.simps)
  next
    case (fail sa)
    from Cons.IH [of "map_option (\<lambda>n. n - 1) k"
        "SetError (-3) (s\<lparr>trace := trace s @ [Call_getnameinfo sa]\<rparr>)"]
    show ?thesis using fail by (auto simp: scan_fail SetError_def simp del: scan.simps)
  next
    case (accept sa)
    then show ?thesis by (simp add: scan_accept SetFqdn_def del: scan.simps)
  next
    case (reject sa)
    from Cons.IH [of "map_option (\<lambda>n. n - 1) k" "s\<lparr>trace := trace s @ [Call_getnameinfo sa]\<rparr>"]
    show ?thesis using reject by (auto simp: scan_reject simp del: scan.simps)
  qed
qed

lemma scan_first_lookup:
  "addresses ifas = sa # rest \<Longrightarrow>
   \<exists>ys. lookups (trace (scan gni base k ifas s)) = lookups (trace s) @ sa # ys"
proof (induction ifas arbitrary: s)
  case Nil
  then show ?case by simp
next
  case (Cons ifa ifas)
  have step: "\<exists>ys. lookups (trace (scan gni base k' ifas s')) = lookups (trace s) @ sa # ys"
    if "trace s' = trace s @ [Call_getnameinfo sa]" for k' s'
  proof -
    from scan_trace_extends [of gni base k' ifas s'] obtain ys
      where "trace (scan gni base k' ifas s') = trace s' @ ys" by blast
    with that show ?thesis by (simp add: lookups_append)
  qed
  show ?case
  proof (cases rule: scan_Cons_cases [where ifa = ifa and k = k and gni = gni and base = base])
    case skip
    with Cons.prems have "addresses ifas = sa # rest"
      by (simp add: addresses_Cons_skip del: addresses.simps)
    from Cons.IH [OF this] skip show ?thesis
      by (simp add: scan_skip del: scan.simps)
  next
    case (cancel sa')
    with Cons.prems have "sa' = sa"
      by (simp add: addresses_Cons_eligible del: addresses.simps)
    with cancel show ?thesis
      by (simp add: scan_cancel lookups_append del: scan.simps)
  next
    case (fail sa')
    with Cons.prems have "sa' = sa"
      by (simp add: addresses_Cons_eligible del: addresses.simps)
    with fail show ?thesis
      by (simp add: scan_fail step SetError_def del: scan.simps)
  next
    case (accept sa')
    with Cons.prems have "sa' = sa"
      by (simp add: addresses_Cons_eligible del: addresses.simps)
    with accept show ?thesis
      by (simp add: scan_accept lookups_append SetFqdn_def del: scan.simps)
  next
    case (reject sa')
    with Cons.prems have "sa' = sa"
      by (simp add: addresses_Cons_eligible del: addresses.simps)
    with reject show ?thesis
      by (simp add: scan_reject step del: scan.simps)
  qed
qed

lemma scan_no_address:
  "addresses ifas = [] \<Longrightarrow> scan gni base k ifas s = s"
proof (induction ifas)
  case Nil
  show ?case by simp
next
  case (Cons ifa ifas)
  show ?case
  proof (cases "eligible ifa")
    case True
    then obtain sa where "ifa_addr ifa = Some sa"
      using eligible_Some by blast
    with True Cons.prems show ?thesis
      by (simp add: addresses_Cons_eligible del: addresses.simps)
  next
    case False
    with Cons show ?thesis
      by (simp add: addresses_Cons_skip scan_skip del: addresses.simps scan.simps)
  qed
qed

lemma scan_first_accepted:
  "addresses ifas = sa # rest \<Longrightarrow> k \<noteq> Some 0 \<Longrightarrow> fst (gni sa) = 0 \<Longrightarrow>
   accepted base (snd (gni sa)) \<Longrightarrow>
   scan gni base k ifas s = SetFqdn (snd (gni sa)) (s\<lparr>trace := trace s @ [Call_getnameinfo sa]\<rparr>)"
proof (induction ifas)
  case Nil
  then show ?case by simp
next
  case (Cons ifa ifas)
  show ?case
  proof (cases "eligible ifa")
    case True
    then obtain sa' where sa': "ifa_addr ifa = Some sa'"
      using eligible_Some by blast
    with True Cons.prems(1) have "sa' = sa"
      by (simp add: addresses_Cons_eligible del: addresses.simps)
    with True sa' Cons.prems show ?thesis
      by (simp add: scan_accept del: scan.simps)
  next
    case False
    with Cons show ?thesis
      by (simp add: addresses_Cons_skip scan_skip del: addresses.simps scan.simps)
  qed
qed

text \<open>
  C7 as stated fails in its second half: a failing enumeration is not the only condition
  under which matching is skipped altogether. When \<^verbatim>\<open>getifaddrs\<close> succeeds with an empty
  list, or with a list that holds only an entry without an address and a packet socket
  entry, the resolver makes no lookup and no match, sets no error, and returns with the
  record as it was.
\<close>

theorem matching_skipped_without_enumeration_failure:
  "fst (os_getifaddrs no_address_os) = 0
   \<and> getfqdn no_address_os None (fresh (HostInfo_ctor (0, ''node01'')))
       = \<lparr>info = HostInfo_ctor (0, ''node01''),
          trace = [Call_getifaddrs, Call_freeifaddrs], cancelled = False\<rparr>
   \<and> fst (os_getifaddrs no_inet_os) = 0
   \<and> getfqdn no_inet_os None (fresh (HostInfo_ctor (0, ''node01'')))
       = \<lparr>info = HostInfo_ctor (0, ''node01''),
          trace = [Call_getifaddrs, Call_freeifaddrs], cancelled = False\<rparr>
   \<and> Error (HostInfo_ctor (0, ''node01'')) = 0"
  by (simp add: no_address_os_def no_inet_os_def example_os_def getfqdn_def fresh_def
      Let_def entry_def AF_INET_def AF_INET6_def HostInfo_ctor_def)

text \<open>
  C7, amended. If the enumeration of the local addresses fails, the resolver sets the
  error to -2 (enumeration failed) and returns: it has made no lookup and no store, and
  nothing else of the record has changed. Matching is skipped altogether under one more
  condition: the enumeration succeeds and holds no IPv4 or IPv6 address; then the
  resolver returns with the record unchanged and no error set. In every other case the
  first IPv4 or IPv6 address is looked up, in every run; when the thread is not
  cancelled in that lookup and the lookup returns a name that passes the acceptance
  test, that name is stored; and a run that is not cancelled makes the lookups of the
  eligible entries up to the first one that yields an accepted candidate.
\<close>

theorem matching_skipped_exactly_without_addresses:
  "(fst (os_getifaddrs sys) \<noteq> 0 \<longrightarrow>
      getfqdn sys k s = s\<lparr>info := (info s)\<lparr>Error := -2\<rparr>, trace := trace s @ [Call_getifaddrs]\<rparr>)
   \<and> (fst (os_getifaddrs sys) = 0 \<and> addresses (snd (os_getifaddrs sys)) = [] \<and> \<not> cancelled s \<longrightarrow>
        getfqdn sys k s = s\<lparr>trace := trace s @ [Call_getifaddrs, Call_freeifaddrs]\<rparr>)
   \<and> (fst (os_getifaddrs sys) = 0 \<and> addresses (snd (os_getifaddrs sys)) \<noteq> [] \<longrightarrow>
        (\<exists>ys. lookups (trace (getfqdn sys k s))
                = lookups (trace s) @ hd (addresses (snd (os_getifaddrs sys))) # ys))
   \<and> (fst (os_getifaddrs sys) = 0 \<and> addresses (snd (os_getifaddrs sys)) = sa # rest
        \<and> k \<noteq> Some 0 \<and> fst (os_getnameinfo sys sa) = 0
        \<and> accepted (Hostname (info s)) (snd (os_getnameinfo sys sa)) \<longrightarrow>
        info (getfqdn sys k s) = (info s)\<lparr>Fqdn := snd (os_getnameinfo sys sa), Error := 0\<rparr>)
   \<and> (fst (os_getifaddrs sys) = 0 \<longrightarrow>
        lookups (trace (getfqdn sys None s))
          = lookups (trace s)
            @ addresses (upto_first (yields (os_getnameinfo sys) (Hostname (info s)))
                (snd (os_getifaddrs sys))))"
proof (intro conjI impI; (elim conjE)?)
  assume "fst (os_getifaddrs sys) \<noteq> 0"
  then show "getfqdn sys k s
      = s\<lparr>info := (info s)\<lparr>Error := -2\<rparr>, trace := trace s @ [Call_getifaddrs]\<rparr>"
    by (simp add: getfqdn_failed SetError_def)
next
  assume ok: "fst (os_getifaddrs sys) = 0" and no: "addresses (snd (os_getifaddrs sys)) = []"
    and live: "\<not> cancelled s"
  from no have "scan (os_getnameinfo sys) (Hostname (info s)) k (snd (os_getifaddrs sys))
      (s\<lparr>trace := trace s @ [Call_getifaddrs]\<rparr>) = s\<lparr>trace := trace s @ [Call_getifaddrs]\<rparr>"
    by (rule scan_no_address)
  with ok live show "getfqdn sys k s = s\<lparr>trace := trace s @ [Call_getifaddrs, Call_freeifaddrs]\<rparr>"
    by (simp add: getfqdn_ok)
next
  assume ok: "fst (os_getifaddrs sys) = 0" and ne: "addresses (snd (os_getifaddrs sys)) \<noteq> []"
  let ?ifas = "snd (os_getifaddrs sys)"
  from ne have "addresses ?ifas = hd (addresses ?ifas) # tl (addresses ?ifas)"
    by simp
  from scan_first_lookup [OF this, of "os_getnameinfo sys" "Hostname (info s)" k
      "s\<lparr>trace := trace s @ [Call_getifaddrs]\<rparr>"]
  show "\<exists>ys. lookups (trace (getfqdn sys k s)) = lookups (trace s) @ hd (addresses ?ifas) # ys"
    using ok by (simp add: getfqdn_lookups lookups_append)
next
  assume ok: "fst (os_getifaddrs sys) = 0"
    and ad: "addresses (snd (os_getifaddrs sys)) = sa # rest"
    and k: "k \<noteq> Some 0" and found: "fst (os_getnameinfo sys sa) = 0"
    and acc: "accepted (Hostname (info s)) (snd (os_getnameinfo sys sa))"
  from scan_first_accepted [where gni = "os_getnameinfo sys" and base = "Hostname (info s)"
      and s = "s\<lparr>trace := trace s @ [Call_getifaddrs]\<rparr>", OF ad k found acc]
  show "info (getfqdn sys k s) = (info s)\<lparr>Fqdn := snd (os_getnameinfo sys sa), Error := 0\<rparr>"
    using ok by (simp add: getfqdn_info SetFqdn_def)
next
  assume ok: "fst (os_getifaddrs sys) = 0"
  then show "lookups (trace (getfqdn sys None s))
          = lookups (trace s)
            @ addresses (upto_first (yields (os_getnameinfo sys) (Hostname (info s)))
                (snd (os_getifaddrs sys)))"
    by (simp add: getfqdn_lookups scan_lookups lookups_append)
qed

theorem matching_skipped_exactly_without_addresses_witness:
  "fst (os_getifaddrs enum_failed_os) \<noteq> 0
   \<and> info (getfqdn enum_failed_os None (fresh (HostInfo_ctor (0, ''node01''))))
       = \<lparr>Hostname = ''node01'', Fqdn = ''node01'', Error = -2, TimerTid = 0\<rparr>
   \<and> trace (getfqdn enum_failed_os None (fresh (HostInfo_ctor (0, ''node01''))))
       = [Call_getifaddrs]
   \<and> fst (os_getifaddrs no_inet_os) = 0
   \<and> addresses (snd (os_getifaddrs no_inet_os)) = []
   \<and> getfqdn no_inet_os (Some 0) (fresh (HostInfo_ctor (0, ''node01'')))
       = \<lparr>info = HostInfo_ctor (0, ''node01''),
          trace = [Call_getifaddrs, Call_freeifaddrs], cancelled = False\<rparr>
   \<and> fst (os_getifaddrs example_os) = 0
   \<and> addresses (snd (os_getifaddrs example_os)) \<noteq> []
   \<and> (\<exists>ys. lookups (trace (getfqdn example_os (Some 0) (fresh (HostInfo_ctor (0, ''node01'')))))
            = \<lparr>sa_family = AF_INET, sa_data = 1\<rparr> # ys)
   \<and> Fqdn (info (getfqdn
         (example_os\<lparr>os_getifaddrs :=
            (0, [\<lparr>ifa_name = ''tun0'', ifa_addr = None\<rparr>, entry ''eth1'' AF_INET 3])\<rparr>)
         None (fresh (HostInfo_ctor (0, ''node01'')))))
       = ''node01.cluster.example.com''
   \<and> lookups (trace (getfqdn example_os None (fresh (HostInfo_ctor (0, ''node01'')))))
       = [\<lparr>sa_family = AF_INET, sa_data = 1\<rparr>, \<lparr>sa_family = AF_INET, sa_data = 2\<rparr>,
          \<lparr>sa_family = AF_INET, sa_data = 3\<rparr>]"
proof -
  let ?s = "fresh (HostInfo_ctor (0, ''node01''))"
  let ?one = "example_os\<lparr>os_getifaddrs :=
            (0, [\<lparr>ifa_name = ''tun0'', ifa_addr = None\<rparr>, entry ''eth1'' AF_INET 3])\<rparr>"
  let ?sa3 = "\<lparr>sa_family = AF_INET, sa_data = 3\<rparr>"
  have f: "fst (os_getifaddrs enum_failed_os) \<noteq> 0"
    by (simp add: enum_failed_os_def example_os_def)
  have ok: "fst (os_getifaddrs example_os) = 0"
    by (simp add: example_os_def)
  have ok0: "fst (os_getifaddrs no_inet_os) = 0"
    by (simp add: no_inet_os_def example_os_def)
  have ok1: "fst (os_getifaddrs ?one) = 0"
    by simp
  have ad0: "addresses (snd (os_getifaddrs no_inet_os)) = []"
    by (simp add: no_inet_os_def example_os_def entry_def AF_INET_def AF_INET6_def)
  have ad: "addresses (snd (os_getifaddrs example_os))
      = [\<lparr>sa_family = AF_INET, sa_data = 1\<rparr>, \<lparr>sa_family = AF_INET, sa_data = 2\<rparr>,
         \<lparr>sa_family = AF_INET, sa_data = 3\<rparr>, \<lparr>sa_family = AF_INET6, sa_data = 4\<rparr>]"
    by (simp add: example_os_def example_ifas_def entry_def AF_INET_def AF_INET6_def)
  have ad1: "addresses (snd (os_getifaddrs ?one)) = ?sa3 # []"
    by (simp add: entry_def AF_INET_def AF_INET6_def)
  have up: "addresses (upto_first (yields (os_getnameinfo example_os) (Hostname (info ?s)))
                (snd (os_getifaddrs example_os)))
      = [\<lparr>sa_family = AF_INET, sa_data = 1\<rparr>, \<lparr>sa_family = AF_INET, sa_data = 2\<rparr>,
         \<lparr>sa_family = AF_INET, sa_data = 3\<rparr>]"
    by (simp add: example_os_def example_ifas_def entry_def AF_INET_def AF_INET6_def
        yields_def example_dns_def accepted_def fresh_def HostInfo_ctor_def Let_def)
  have s: "?s\<lparr>info := (info ?s)\<lparr>Error := -2\<rparr>, trace := trace ?s @ [Call_getifaddrs]\<rparr>
      = \<lparr>info = \<lparr>Hostname = ''node01'', Fqdn = ''node01'', Error = -2, TimerTid = 0\<rparr>,
         trace = [Call_getifaddrs], cancelled = False\<rparr>"
    by (simp add: fresh_def HostInfo_ctor_def Let_def)
  have s0: "?s\<lparr>trace := trace ?s @ [Call_getifaddrs, Call_freeifaddrs]\<rparr>
      = \<lparr>info = HostInfo_ctor (0, ''node01''),
         trace = [Call_getifaddrs, Call_freeifaddrs], cancelled = False\<rparr>"
    by (simp add: fresh_def)
  have t: "trace ?s = []" and live: "\<not> cancelled ?s"
    by (simp_all add: fresh_def)
  have hit: "fst (os_getnameinfo ?one ?sa3) = 0
      \<and> accepted (Hostname (info ?s)) (snd (os_getnameinfo ?one ?sa3))"
    by (simp add: example_os_def example_dns_def accepted_def fresh_def HostInfo_ctor_def Let_def)
  have nm: "snd (os_getnameinfo ?one ?sa3) = ''node01.cluster.example.com''"
    by (simp add: example_os_def example_dns_def)
  note A = matching_skipped_exactly_without_addresses [of enum_failed_os None ?s]
  note B = matching_skipped_exactly_without_addresses [of example_os "Some 0" ?s]
  note C = matching_skipped_exactly_without_addresses [of no_inet_os "Some 0" ?s]
  note D = matching_skipped_exactly_without_addresses [of ?one None ?s ?sa3 "[]"]
  from A f have 1: "getfqdn enum_failed_os None ?s
      = \<lparr>info = \<lparr>Hostname = ''node01'', Fqdn = ''node01'', Error = -2, TimerTid = 0\<rparr>,
         trace = [Call_getifaddrs], cancelled = False\<rparr>"
    unfolding s by blast
  from B ok ad have 2: "\<exists>ys. lookups (trace (getfqdn example_os (Some 0) ?s))
            = \<lparr>sa_family = AF_INET, sa_data = 1\<rparr> # ys"
    by (simp add: t)
  from A B ok have 3: "lookups (trace (getfqdn example_os None ?s))
       = [\<lparr>sa_family = AF_INET, sa_data = 1\<rparr>, \<lparr>sa_family = AF_INET, sa_data = 2\<rparr>,
          \<lparr>sa_family = AF_INET, sa_data = 3\<rparr>]"
    unfolding up by (simp add: t)
  from C ok0 ad0 live have 4: "getfqdn no_inet_os (Some 0) ?s
      = \<lparr>info = HostInfo_ctor (0, ''node01''),
          trace = [Call_getifaddrs, Call_freeifaddrs], cancelled = False\<rparr>"
    unfolding s0 by blast
  from D ok1 ad1 hit have "info (getfqdn ?one None ?s)
      = (info ?s)\<lparr>Fqdn := snd (os_getnameinfo ?one ?sa3), Error := 0\<rparr>"
    by blast
  then have 5: "Fqdn (info (getfqdn ?one None ?s)) = ''node01.cluster.example.com''"
    unfolding nm by simp
  from f ok ok0 ad ad0 1 2 3 4 5 show ?thesis
    by simp
qed

section \<open>Failure of a lookup\<close>

lemma scan_no_yield_Error:
  "\<forall>x\<in>set ifas. \<not> yields gni base x \<Longrightarrow> Error (info s) = -3 \<Longrightarrow>
   Error (info (scan gni base None ifas s)) = -3"
  by (induction ifas arbitrary: s)
     (auto simp: Let_def SetError_def yields_def split: option.splits)

lemma failing_not_yields: "ifa_addr ifa = Some sa \<Longrightarrow> fst (gni sa) \<noteq> 0 \<Longrightarrow> \<not> yields gni base ifa"
  by (simp add: yields_def)

text \<open>
  C8. For every address whose reverse lookup fails, the resolver records the soft error
  -3 (lookup failed) and goes on with the next address in enumeration order: when the
  entries before \<open>ifa\<close> yield no accepted candidate and the lookup of \<open>ifa\<close> fails, the
  loop continues over the remaining entries from the state in which the error is -3, so
  the lookups of a run that is not cancelled are those of the eligible entries before
  \<open>ifa\<close>, that of \<open>ifa\<close>, and those of the remaining entries up to the first accepted
  candidate; and if no remaining entry yields one, the error is still -3 and \<^verbatim>\<open>Fqdn\<close> is
  unchanged when the resolver returns.
\<close>

theorem lookup_failure_continues_scan:
  assumes enum: "os_getifaddrs sys = (0, pre @ ifa # post)"
    and pre: "\<forall>x\<in>set pre. \<not> yields (os_getnameinfo sys) (Hostname (info s)) x"
    and el: "eligible ifa"
    and sa: "ifa_addr ifa = Some sa"
    and failed: "fst (os_getnameinfo sys sa) \<noteq> 0"
  shows "scan (os_getnameinfo sys) (Hostname (info s)) None (pre @ ifa # post) t
      = scan (os_getnameinfo sys) (Hostname (info s)) None post
          (SetError (-3)
             ((scan (os_getnameinfo sys) (Hostname (info s)) None pre t)
                \<lparr>trace := trace (scan (os_getnameinfo sys) (Hostname (info s)) None pre t)
                            @ [Call_getnameinfo sa]\<rparr>))
    \<and> lookups (trace (getfqdn sys None s))
        = lookups (trace s) @ addresses pre @ sa
          # addresses (upto_first (yields (os_getnameinfo sys) (Hostname (info s))) post)
    \<and> ((\<forall>x\<in>set post. \<not> yields (os_getnameinfo sys) (Hostname (info s)) x) \<longrightarrow>
          Error (info (getfqdn sys None s)) = -3
          \<and> Fqdn (info (getfqdn sys None s)) = Fqdn (info s))"
proof (intro conjI impI)
  let ?gni = "os_getnameinfo sys" and ?base = "Hostname (info s)"
  let ?s0 = "s\<lparr>trace := trace s @ [Call_getifaddrs]\<rparr>"
  from enum have ok: "fst (os_getifaddrs sys) = 0"
    and ifas: "snd (os_getifaddrs sys) = pre @ ifa # post"
    by simp_all
  have ny: "\<not> yields ?gni ?base ifa"
    using sa failed by (rule failing_not_yields)
  have split: "scan ?gni ?base None (pre @ ifa # post) u
      = scan ?gni ?base None post
          (SetError (-3) ((scan ?gni ?base None pre u)
             \<lparr>trace := trace (scan ?gni ?base None pre u) @ [Call_getnameinfo sa]\<rparr>))" for u
  proof -
    have "scan ?gni ?base None (pre @ ifa # post) u
        = scan ?gni ?base None (ifa # post) (scan ?gni ?base None pre u)"
      using pre by (rule scan_append_no_yield)
    also have "\<dots> = scan ?gni ?base None post
          (SetError (-3) ((scan ?gni ?base None pre u)
             \<lparr>trace := trace (scan ?gni ?base None pre u) @ [Call_getnameinfo sa]\<rparr>))"
      using el sa failed by (simp add: scan_fail del: scan.simps)
    finally show ?thesis .
  qed
  show "scan ?gni ?base None (pre @ ifa # post) t
      = scan ?gni ?base None post
          (SetError (-3) ((scan ?gni ?base None pre t)
             \<lparr>trace := trace (scan ?gni ?base None pre t) @ [Call_getnameinfo sa]\<rparr>))"
    by (rule split)
  have "upto_first (yields ?gni ?base) (pre @ ifa # post)
      = pre @ ifa # upto_first (yields ?gni ?base) post"
    using pre ny by (simp add: upto_first_append_no)
  then have "addresses (upto_first (yields ?gni ?base) (pre @ ifa # post))
      = addresses pre @ sa # addresses (upto_first (yields ?gni ?base) post)"
    using el sa by (simp add: addresses_append addresses_Cons_eligible del: addresses.simps)
  then show "lookups (trace (getfqdn sys None s))
        = lookups (trace s) @ addresses pre @ sa
          # addresses (upto_first (yields ?gni ?base) post)"
    using ok ifas by (simp add: getfqdn_lookups scan_lookups lookups_append)
  assume post: "\<forall>x\<in>set post. \<not> yields ?gni ?base x"
  let ?mid = "SetError (-3) ((scan ?gni ?base None pre ?s0)
             \<lparr>trace := trace (scan ?gni ?base None pre ?s0) @ [Call_getnameinfo sa]\<rparr>)"
  have i: "info (getfqdn sys None s) = info (scan ?gni ?base None post ?mid)"
    using ok ifas split [of ?s0] by (simp add: getfqdn_info)
  have "Error (info ?mid) = -3"
    by (simp add: SetError_def)
  with post have "Error (info (scan ?gni ?base None post ?mid)) = -3"
    by (rule scan_no_yield_Error)
  with i show "Error (info (getfqdn sys None s)) = -3"
    by simp
  have "Fqdn (info (scan ?gni ?base None post ?mid)) = Fqdn (info ?mid)"
    using post by (rule scan_no_yield_info)
  also have "Fqdn (info ?mid) = Fqdn (info (scan ?gni ?base None pre ?s0))"
    by (simp add: SetError_def)
  also have "\<dots> = Fqdn (info ?s0)"
    using pre by (rule scan_no_yield_info)
  finally show "Fqdn (info (getfqdn sys None s)) = Fqdn (info s)"
    using i by simp
qed

theorem lookup_failure_continues_scan_witness:
  "eligible (entry ''eth0'' AF_INET 2)
   \<and> fst (os_getnameinfo example_os \<lparr>sa_family = AF_INET, sa_data = 2\<rparr>) \<noteq> 0
   \<and> lookups (trace (getfqdn example_os None (fresh (HostInfo_ctor (0, ''node01'')))))
       = [\<lparr>sa_family = AF_INET, sa_data = 1\<rparr>, \<lparr>sa_family = AF_INET, sa_data = 2\<rparr>,
          \<lparr>sa_family = AF_INET, sa_data = 3\<rparr>]
   \<and> Error (info (getfqdn no_name_os None (fresh (HostInfo_ctor (0, ''node01''))))) = -3
   \<and> Fqdn (info (getfqdn no_name_os None (fresh (HostInfo_ctor (0, ''node01''))))) = ''node01''
   \<and> lookups (trace (getfqdn no_name_os None (fresh (HostInfo_ctor (0, ''node01'')))))
       = [\<lparr>sa_family = AF_INET, sa_data = 1\<rparr>, \<lparr>sa_family = AF_INET, sa_data = 2\<rparr>,
          \<lparr>sa_family = AF_INET, sa_data = 3\<rparr>, \<lparr>sa_family = AF_INET6, sa_data = 4\<rparr>]"
proof -
  let ?pre = "[entry ''lo'' AF_INET 1, \<lparr>ifa_name = ''tun0'', ifa_addr = None\<rparr>,
               entry ''eth0'' 17 0]"
  let ?post = "[entry ''eth1'' AF_INET 3, entry ''eth1'' AF_INET6 4]"
  let ?ifa = "entry ''eth0'' AF_INET 2"
  let ?sa = "\<lparr>sa_family = AF_INET, sa_data = 2\<rparr>"
  let ?s = "fresh (HostInfo_ctor (0, ''node01''))"
  have base: "Hostname (info ?s) = ''node01''" and fq: "Fqdn (info ?s) = ''node01''"
    and tr: "trace ?s = []"
    by (simp_all add: fresh_def HostInfo_ctor_def Let_def)
  have e1: "os_getifaddrs example_os = (0, ?pre @ ?ifa # ?post)"
    by (simp add: example_os_def example_ifas_def)
  have e2: "os_getifaddrs no_name_os = (0, ?pre @ ?ifa # ?post)"
    by (simp add: no_name_os_def example_os_def example_ifas_def)
  have g1: "os_getnameinfo example_os = example_dns"
    by (simp add: example_os_def)
  have g2: "os_getnameinfo no_name_os = silent_dns"
    by (simp add: no_name_os_def example_os_def)
  have p1: "\<forall>x\<in>set ?pre. \<not> yields (os_getnameinfo example_os) (Hostname (info ?s)) x"
    by (simp add: base g1 yields_def entry_def example_dns_def accepted_def
        AF_INET_def AF_INET6_def)
  have p2: "\<forall>x\<in>set ?pre. \<not> yields (os_getnameinfo no_name_os) (Hostname (info ?s)) x"
    by (simp add: base g2 yields_def entry_def silent_dns_def)
  have q2: "\<forall>x\<in>set ?post. \<not> yields (os_getnameinfo no_name_os) (Hostname (info ?s)) x"
    by (simp add: base g2 yields_def entry_def silent_dns_def)
  have el: "eligible ?ifa"
    by (simp add: eligible_def entry_def)
  have sa: "ifa_addr ?ifa = Some ?sa"
    by (simp add: entry_def)
  have f1: "fst (os_getnameinfo example_os ?sa) \<noteq> 0"
    by (simp add: g1 example_dns_def)
  have f2: "fst (os_getnameinfo no_name_os ?sa) \<noteq> 0"
    by (simp add: g2 silent_dns_def)
  note A = lookup_failure_continues_scan [OF e1 p1 el sa f1]
  note B = lookup_failure_continues_scan [OF e2 p2 el sa f2]
  have 1: "lookups (trace (getfqdn example_os None ?s))
       = [\<lparr>sa_family = AF_INET, sa_data = 1\<rparr>, \<lparr>sa_family = AF_INET, sa_data = 2\<rparr>,
          \<lparr>sa_family = AF_INET, sa_data = 3\<rparr>]"
    using A by (simp add: base g1 tr yields_def entry_def example_dns_def accepted_def
        AF_INET_def AF_INET6_def)
  have 2: "lookups (trace (getfqdn no_name_os None ?s))
       = [\<lparr>sa_family = AF_INET, sa_data = 1\<rparr>, \<lparr>sa_family = AF_INET, sa_data = 2\<rparr>,
          \<lparr>sa_family = AF_INET, sa_data = 3\<rparr>, \<lparr>sa_family = AF_INET6, sa_data = 4\<rparr>]"
    using B by (simp add: base g2 tr yields_def entry_def silent_dns_def
        AF_INET_def AF_INET6_def)
  have 3: "Error (info (getfqdn no_name_os None ?s)) = -3
      \<and> Fqdn (info (getfqdn no_name_os None ?s)) = ''node01''"
    using B q2 fq by simp
  from el f1 1 2 3 show ?thesis
    by simp
qed

section \<open>The timer\<close>

lemma nanoseconds_timespec_of: "nanoseconds (timespec_of n) = n"
  by (simp add: nanoseconds_def timespec_of_def)

lemma timespec_of_valid: "0 \<le> n \<Longrightarrow> timespec_valid (timespec_of n)"
  by (simp add: timespec_valid_def timespec_of_def pos_imp_zdiv_nonneg_iff)

lemma timer_loop_valid:
  "timespec_valid rem \<Longrightarrow> timer_loop rem signals = nanoseconds rem"
proof (induction signals arbitrary: rem)
  case Nil
  then show ?case by (simp add: nanosleep_def)
next
  case (Cons d ds)
  show ?case
  proof (cases "int d < nanoseconds rem")
    case True
    then have "timespec_valid (timespec_of (nanoseconds rem - int d))"
      by (simp add: timespec_of_valid)
    from Cons.IH [OF this] True Cons.prems show ?thesis
      by (simp add: nanosleep_def nanoseconds_timespec_of)
  next
    case False
    with Cons.prems show ?thesis by (simp add: nanosleep_def)
  qed
qed

lemma timer_loop_invalid: "\<not> timespec_valid rem \<Longrightarrow> timer_loop rem signals = 0"
  by (cases signals) (simp_all add: nanosleep_def)

lemma sint_million:
  assumes "0 \<le> sint msec" "sint msec < 2148"
  shows "sint (1000000 * msec :: c_int) = 1000000 * sint msec"
proof -
  have "sint (1000000 * msec) = signed_take_bit 31 (sint (1000000 :: c_int) * sint msec)"
    by (simp add: sint_word_ariths)
  also have "sint (1000000 :: c_int) = 1000000" by simp
  also have "signed_take_bit 31 (1000000 * sint msec) = 1000000 * sint msec"
    using assms by (intro signed_take_bit_int_eq_self) simp_all
  finally show ?thesis .
qed

lemma timer_below_one_second:
  assumes "0 \<le> sint msec" "sint msec < 1000"
  shows "timespec_valid (timer_request msec)
    \<and> nanoseconds (timer_request msec) = 1000000 * sint msec
    \<and> timer msec signals = 1000000 * sint msec"
proof -
  have n: "tv_nsec (timer_request msec) = 1000000 * sint msec"
    using assms by (simp add: timer_request_def sint_million)
  then have v: "timespec_valid (timer_request msec)"
    using assms by (simp add: timespec_valid_def timer_request_def)
  have ns: "nanoseconds (timer_request msec) = 1000000 * sint msec"
    using n by (simp add: nanoseconds_def timer_request_def)
  from timer_loop_valid [OF v] ns show ?thesis
    using v by (simp add: timer_def)
qed

lemma timer_from_one_second:
  assumes "1000 \<le> sint msec" "sint msec < 2148"
  shows "\<not> timespec_valid (timer_request msec) \<and> timer msec signals = 0"
proof -
  have n: "tv_nsec (timer_request msec) = 1000000 * sint msec"
    using assms by (simp add: timer_request_def sint_million)
  then have v: "\<not> timespec_valid (timer_request msec)"
    using assms by (simp add: timespec_valid_def)
  with timer_loop_invalid show ?thesis by (simp add: timer_def)
qed

lemma timer_five_seconds_wraps:
  "timer_request 5000 = \<lparr>tv_sec = 0, tv_nsec = 705032704\<rparr> \<and> timer 5000 [] = 705032704"
  by (simp add: timer_request_def timer_def nanosleep_def timespec_valid_def nanoseconds_def)

text \<open>
  C2. The timer, started with a duration of \<open>msec\<close> milliseconds that is not negative,
  is to block for exactly that duration. For 1000 milliseconds it does not: the request
  it builds has \<^verbatim>\<open>tv_sec = 0\<close> and \<^verbatim>\<open>tv_nsec = 1000000000\<close>, which is outside the range
  \<^verbatim>\<open>nanosleep\<close> accepts, so the call fails with \<^verbatim>\<open>EINVAL\<close>, the loop ends because the
  error is not \<^verbatim>\<open>EINTR\<close>, and the timer has blocked for no time at all, with or without
  signals.
\<close>

theorem timer_one_second_request_invalid:
  "timer_request 1000 = \<lparr>tv_sec = 0, tv_nsec = 1000000000\<rparr>
   \<and> \<not> timespec_valid (timer_request 1000)
   \<and> fst (nanosleep (timer_request 1000) None) = EINVAL
   \<and> timer 1000 [] = 0
   \<and> timer 1000 [250000000, 250000000] = 0"
  by (simp add: timer_request_def timespec_valid_def timer_def nanosleep_def)

section \<open>The coordinator's command line and return value\<close>

text \<open>
  C9. The value \<^verbatim>\<open>main\<close> returns is -1 for a wrong number of arguments, -2 when the
  timer thread cannot be created, -1 when the resolver thread cannot be created, -3 when
  waiting for the timer thread fails, -5 when waiting for the resolver thread fails, and 0
  otherwise, in this order of precedence. It depends on nothing else: not on the
  hostname, the enumeration, the lookups, or whether the resolver was cancelled. No
  other value is returned, and 0 is returned exactly on the runs that report a value.
\<close>

theorem exit_codes:
  "ret (main argv sys) =
     (if length argv \<noteq> 2 then -1
      else if fst (os_create_timer sys) \<noteq> 0 then -2
      else if fst (os_create_rdns sys) \<noteq> 0 then -1
      else if os_join_timer sys \<noteq> 0 then -3
      else if os_join_rdns sys \<noteq> 0 then -5
      else 0)
   \<and> ret (main argv sys) \<in> {0, -1, -2, -3, -5}
   \<and> (reported (main argv sys) \<noteq> None \<longleftrightarrow> ret (main argv sys) = 0)"
proof -
  have r: "ret (main argv sys) =
     (if length argv \<noteq> 2 then -1
      else if fst (os_create_timer sys) \<noteq> 0 then -2
      else if fst (os_create_rdns sys) \<noteq> 0 then -1
      else if os_join_timer sys \<noteq> 0 then -3
      else if os_join_rdns sys \<noteq> 0 then -5
      else 0)"
    by (simp add: main_def Let_def)
  then have m: "ret (main argv sys) \<in> {0, -1, -2, -3, -5}"
    by (simp split: if_splits)
  have "reported (main argv sys) \<noteq> None \<longleftrightarrow> ret (main argv sys) = 0"
    by (simp add: main_def Let_def reported_def)
  with r m show ?thesis by blast
qed

theorem exit_codes_witness:
  "ret (main [''a.out''] example_os) = -1
   \<and> ret (main [''a.out'', ''500'', ''more''] example_os) = -1
   \<and> ret (main [''a.out'', ''500''] (example_os\<lparr>os_create_timer := (11, 0)\<rparr>)) = -2
   \<and> ret (main [''a.out'', ''500''] (example_os\<lparr>os_create_rdns := (11, 0)\<rparr>)) = -1
   \<and> ret (main [''a.out'', ''500''] (example_os\<lparr>os_join_timer := 3\<rparr>)) = -3
   \<and> ret (main [''a.out'', ''500''] (example_os\<lparr>os_join_rdns := 3\<rparr>)) = -5
   \<and> ret (main [''a.out'', ''500''] example_os) = 0
   \<and> ret (main [''a.out'', ''500''] no_name_os) = 0
   \<and> ret (main [''a.out'', ''500''] enum_failed_os) = 0
   \<and> ret (main [''a.out'', ''500''] timeout_os) = 0"
  using exit_codes [of "[''a.out'']" example_os]
    exit_codes [of "[''a.out'', ''500'', ''more'']" example_os]
    exit_codes [of "[''a.out'', ''500'']" "example_os\<lparr>os_create_timer := (11, 0)\<rparr>"]
    exit_codes [of "[''a.out'', ''500'']" "example_os\<lparr>os_create_rdns := (11, 0)\<rparr>"]
    exit_codes [of "[''a.out'', ''500'']" "example_os\<lparr>os_join_timer := 3\<rparr>"]
    exit_codes [of "[''a.out'', ''500'']" "example_os\<lparr>os_join_rdns := 3\<rparr>"]
    exit_codes [of "[''a.out'', ''500'']" example_os]
    exit_codes [of "[''a.out'', ''500'']" no_name_os]
    exit_codes [of "[''a.out'', ''500'']" enum_failed_os]
    exit_codes [of "[''a.out'', ''500'']" timeout_os]
  by (simp add: example_os_def no_name_os_def enum_failed_os_def timeout_os_def)
















lemma atoi_examples:
  "atoi ''500'' = 500" "atoi ''-5'' = -5" "atoi ''soon'' = 0" "atoi ''1'' = 1"
  by (simp_all add: atoi_def strtol_def LONG_MAX_def LONG_MIN_def isspace_def isdigit_def)




section \<open>Release of the enumeration\<close>

lemma scan_no_free:
  "Call_freeifaddrs \<in> set (trace (scan gni base k ifas s)) \<Longrightarrow> Call_freeifaddrs \<in> set (trace s)"
  by (induction gni base k ifas s rule: scan.induct)
     (auto simp: Let_def SetError_def SetFqdn_def split: option.splits if_splits)

lemma getfqdn_returns_frees:
  assumes "fst (os_getifaddrs sys) = 0" "\<not> cancelled s"
  shows "\<not> cancelled (getfqdn sys None s)"
    and "last (trace (getfqdn sys None s)) = Call_freeifaddrs"
  using assms by (simp_all add: getfqdn_ok Let_def scan_cancelled_None)

lemma getfqdn_enum_failed_holds_nothing:
  assumes "fst (os_getifaddrs sys) \<noteq> 0"
  shows "trace (getfqdn sys k s) = trace s @ [Call_getifaddrs]"
  using assms by (simp add: getfqdn_failed SetError_def)

lemma getfqdn_cancelled_never_frees:
  assumes "Call_freeifaddrs \<notin> set (trace s)" "\<not> cancelled s" "cancelled (getfqdn sys k s)"
  shows "fst (os_getifaddrs sys) = 0 \<and> Call_freeifaddrs \<notin> set (trace (getfqdn sys k s))"
proof (cases "fst (os_getifaddrs sys) = 0")
  case True
  let ?s1 = "scan (os_getnameinfo sys) (Hostname (info s)) k (snd (os_getifaddrs sys))
               (s\<lparr>trace := trace s @ [Call_getifaddrs]\<rparr>)"
  have "cancelled ?s1"
    using assms(3) True by (simp add: getfqdn_ok Let_def split: if_splits)
  then have "getfqdn sys k s = ?s1"
    using True by (simp add: getfqdn_ok Let_def)
  moreover have "Call_freeifaddrs \<notin> set (trace ?s1)"
    using assms(1) scan_no_free [of "os_getnameinfo sys" "Hostname (info s)" k
        "snd (os_getifaddrs sys)" "s\<lparr>trace := trace s @ [Call_getifaddrs]\<rparr>"]
    by auto
  ultimately show ?thesis using True by simp
next
  case False
  with assms show ?thesis by (simp add: getfqdn_failed SetError_def)
qed

text \<open>
  C10. The enumeration obtained with \<^verbatim>\<open>getifaddrs\<close> is to be released on every way out
  of the resolver thread, abandonment on timeout included. On that way it is not: when
  the timer (1 ms) ends while the first lookup is pending, \<^verbatim>\<open>main\<close> cancels the resolver
  thread, the thread ends inside \<^verbatim>\<open>getnameinfo\<close>, \<^verbatim>\<open>main\<close> joins it, reports the hostname
  and returns 0, and the thread has called \<^verbatim>\<open>getifaddrs\<close> and never \<^verbatim>\<open>freeifaddrs\<close>.
\<close>

theorem cancelled_resolver_never_frees_ifaddrs:
  "ret (main [''a.out'', ''1''] timeout_os) = 0
   \<and> cerr (main [''a.out'', ''1''] timeout_os)
       = [''rdns took too long, falling back to gethostname'', ''fqdn=node01'']
   \<and> calls (main [''a.out'', ''1''] timeout_os)
       = [Create_timer 1, Create_getfqdn, Join_timer, Cancel_rdns, Join_rdns]
   \<and> map_option cancelled (rdns (main [''a.out'', ''1''] timeout_os)) = Some True
   \<and> map_option trace (rdns (main [''a.out'', ''1''] timeout_os))
       = Some [Call_getifaddrs, Call_getnameinfo \<lparr>sa_family = AF_INET, sa_data = 1\<rparr>]"
  by (simp add: main_def Let_def timeout_os_def example_os_def atoi_examples getfqdn_def
      fresh_def HostInfo_ctor_def SetTimerThreadId_def GetHostname_def GetError_def
      GetFqdn_def example_ifas_def entry_def ESRCH_def AF_INET_def AF_INET6_def)

end
